theory Spec2Isabelle
  imports Complex_Main "HOL-Library.Sublist"
begin

section \<open>Emergency assistant: data model\<close>

text \<open>
  The dataclasses of \<^verbatim>\<open>ai_emergency_assistance.py\<close>. Python's \<^verbatim>\<open>int\<close> is \<^typ>\<open>int\<close>;
  Python's \<^verbatim>\<open>float\<close> is a double, modelled below by the real number it stands for with every
  operation rounded. The coordinate dictionaries are read only at the keys
  \<^verbatim>\<open>'lat'\<close> and \<^verbatim>\<open>'lon'\<close>, which the constructor's docstring requires, so they are a record
  of these two fields. The field \<^verbatim>\<open>id\<close> of a hospital and the field \<^verbatim>\<open>name\<close> of a contact
  are renamed, since records share one name space with the constants of HOL.
\<close>

record Coordinates =
  lat :: real
  lon :: real

record Hospital =
  hospital_id :: string
  name :: string
  address :: string
  contact_number :: string
  coordinates :: Coordinates

record EmergencyContact =
  contact_name :: string
  phone :: string

record MedicalHistory =
  allergies :: "string list"
  conditions :: "string list"
  medications :: "string list"

record HospitalAvailability =
  available :: bool
  wait_time :: int

record TrafficAnalysis =
  travel_time :: int
  distance_km :: real

section \<open>Strings\<close>

text \<open>
  A \<^typ>\<open>string\<close> is a list of 8-bit characters, read here as the code points 0 to 255 of a
  Python \<^verbatim>\<open>str\<close>. On these code points \<^verbatim>\<open>str.lower\<close> works character by character: it adds
  32 to A..Z (65..90) and to the Latin-1 capitals 192..214 and 216..222, and leaves every other
  code point alone. Descriptions with code points above 255 are outside the model.
\<close>

definition lower_char :: "char \<Rightarrow> char" where
  "lower_char c =
     (let n = (of_char c :: nat)
      in if (65 \<le> n \<and> n \<le> 90) \<or> (192 \<le> n \<and> n \<le> 214) \<or> (216 \<le> n \<and> n \<le> 222)
         then char_of (n + 32) else c)"

definition lower :: "string \<Rightarrow> string" where
  "lower s = map lower_char s"

text \<open>Python's \<^verbatim>\<open>sub in s\<close> on strings: \<open>sub\<close> occurs in \<open>s\<close> as a contiguous block.\<close>

fun str_in :: "string \<Rightarrow> string \<Rightarrow> bool" where
  "str_in sub [] = (sub = [])"
| "str_in sub (c # cs) = (prefix sub (c # cs) \<or> str_in sub cs)"

section \<open>Symptom analysis\<close>

text \<open>
  \<^verbatim>\<open>_analyze_symptoms\<close>: the description is lower-cased, then the two keyword rules are tried
  in order; the result is the pair (summary, severity). The severity stays a string, as in
  the source.
\<close>

definition analyze_symptoms :: "string \<Rightarrow> string \<times> string" where
  "analyze_symptoms description0 =
     (let description = lower description0
      in if str_in ''chest pain'' description
            \<and> (str_in ''arm'' description \<or> str_in ''left'' description)
         then (''Severe chest pain, arm numbness'', ''critical'')
         else if str_in ''difficulty breathing'' description
         then (''Difficulty breathing'', ''critical'')
         else (description, ''moderate''))"

section \<open>Double-precision arithmetic\<close>

text \<open>
  A Python \<^verbatim>\<open>float\<close> is an IEEE 754 double. A finite double is represented by the real number
  it stands for, and an arithmetic operation returns the exact result rounded to the nearest
  double, ties going to the even significand. \<open>round_double\<close> is this rounding: to 53
  significant bits from \<open>2 powi - 1022\<close> upwards and to a multiple of \<open>2 powi - 1074\<close> below,
  so that results too small for a double become 0 as in the interpreter. Infinities and NaN
  are not represented: \<open>round_double\<close> is the result of an operation only while it stays
  below \<open>2 powi 1024\<close>. Every operation of the score does, since its values lie between -1
  and 1; the distance does as long as the coordinates are latitudes and longitudes.
\<close>

definition round_half_even :: "real \<Rightarrow> int" where
  "round_half_even y =
     (let f = \<lfloor>y\<rfloor>
      in if y - real_of_int f < 1 / 2 then f
         else if 1 / 2 < y - real_of_int f then f + 1
         else if even f then f else f + 1)"

definition double_exponent :: "real \<Rightarrow> int" where
  "double_exponent x = max (\<lfloor>log 2 \<bar>x\<bar>\<rfloor> - 52) (- 1074)"

definition round_double :: "real \<Rightarrow> real" where
  "round_double x =
     (if x = 0 then 0
      else real_of_int (round_half_even (x / 2 powi double_exponent x))
             * 2 powi double_exponent x)"

text \<open>The operators \<^verbatim>\<open>+\<close>, \<^verbatim>\<open>-\<close> and \<^verbatim>\<open>*\<close> on two floats.\<close>

definition fadd :: "real \<Rightarrow> real \<Rightarrow> real" where
  "fadd x y = round_double (x + y)"

definition fsub :: "real \<Rightarrow> real \<Rightarrow> real" where
  "fsub x y = round_double (x - y)"

definition fmul :: "real \<Rightarrow> real \<Rightarrow> real" where
  "fmul x y = round_double (x * y)"

section \<open>The simulated collaborators\<close>

text \<open>
  The availability check and the traffic analysis draw from Python's \<^verbatim>\<open>random\<close> module, and
  the traffic analysis raises floats to a power. A run is modelled as a function of the
  values it obtains in this way: one \<open>Draw\<close> per hospital visited, with the outcome of
  \<^verbatim>\<open>random.choices([True, False], weights=[0.8, 0.2])[0]\<close>, of \<^verbatim>\<open>random.randint(5, 60)\<close> and of
  \<^verbatim>\<open>random.uniform(2, 5)\<close>, and \<open>rng i\<close> the draws for the hospital at position \<open>i\<close> of the
  list.

  The operator \<^verbatim>\<open>**\<close> on floats calls the \<^verbatim>\<open>pow\<close> of the C library, whose result IEEE 754
  does not fix: it is close to the power but need not be the correctly rounded one, and
  \<^verbatim>\<open>x ** 2\<close> can differ from \<^verbatim>\<open>x * x\<close> in the last place. The function the platform provides is
  therefore part of the draw as well, \<open>libm_pow d x y\<close> standing for \<^verbatim>\<open>x ** y\<close>.

  \<open>valid_draw\<close> says what the libraries promise: the ranges of the random values, and that
  a square and the square root of a number that is not negative are not negative.
\<close>

record Draw =
  choice :: bool
  randint :: int
  uniform :: real
  libm_pow :: "real \<Rightarrow> real \<Rightarrow> real"

definition valid_draw :: "Draw \<Rightarrow> bool" where
  "valid_draw d \<longleftrightarrow>
     5 \<le> randint d \<and> randint d \<le> 60 \<and> 2 \<le> uniform d \<and> uniform d \<le> 5
     \<and> (\<forall>x. 0 \<le> libm_pow d x 2) \<and> (\<forall>x. 0 \<le> x \<longrightarrow> 0 \<le> libm_pow d x (1 / 2))"

record EmergencyAssistantAI =
  patient_address :: string
  patient_coordinates :: Coordinates
  medical_history :: MedicalHistory
  current_symptoms :: string
  symptom_severity :: string

text \<open>
  \<^verbatim>\<open>int(x)\<close> on a float truncates towards zero. \<^verbatim>\<open>round(x, 2)\<close> rounds the exact value of \<open>x\<close> to
  two decimals, half to even, and returns the double nearest to that decimal number.
\<close>

definition py_int :: "real \<Rightarrow> int" where
  "py_int x = (if 0 \<le> x then \<lfloor>x\<rfloor> else \<lceil>x\<rceil>)"

definition py_round2 :: "real \<Rightarrow> real" where
  "py_round2 x = round_double (real_of_int (round_half_even (x * 100)) / 100)"

definition check_hospital_availability :: "Hospital \<Rightarrow> Draw \<Rightarrow> HospitalAvailability" where
  "check_hospital_availability hospital d = \<lparr>available = choice d, wait_time = randint d\<rparr>"

text \<open>
  \<^verbatim>\<open>_analyze_traffic\<close>, operation by operation: two subtractions, two products with the
  integers 111 and 85, two squares, their sum, the power \<^verbatim>\<open>** 0.5\<close>, and the product with the
  factor drawn, which \<^verbatim>\<open>int\<close> truncates.
\<close>

definition analyze_traffic :: "EmergencyAssistantAI \<Rightarrow> Hospital \<Rightarrow> Draw \<Rightarrow> TrafficAnalysis" where
  "analyze_traffic self hospital d =
     (let lat_diff = fsub (lat (coordinates hospital)) (lat (patient_coordinates self));
          lon_diff = fsub (lon (coordinates hospital)) (lon (patient_coordinates self));
          distance = libm_pow d (fadd (libm_pow d (fmul lat_diff 111) 2)
                                      (libm_pow d (fmul lon_diff 85) 2)) (1 / 2)
      in \<lparr>travel_time = py_int (fmul distance (uniform d)),
          distance_km = py_round2 distance\<rparr>)"

section \<open>Hospital selection\<close>

text \<open>
  The exceptions the selection code could raise are values: \<^verbatim>\<open>1 / x\<close> raises
  ZeroDivisionError at \<open>x = 0\<close>, and \<^verbatim>\<open>xs[0]\<close> raises IndexError on an empty list.
  The quotient of two integers is the double nearest to the exact quotient.
\<close>

datatype PyError = ZeroDivisionError | IndexError

definition true_div :: "int \<Rightarrow> int \<Rightarrow> PyError + real" where
  "true_div a b =
     (if b = 0 then Inl ZeroDivisionError
      else Inr (round_double (real_of_int a / real_of_int b)))"

text \<open>An entry of \<^verbatim>\<open>ranked_hospitals\<close>: the dictionary with keys hospital, travel_time, score.\<close>

record RankedHospital =
  hospital :: Hospital
  ranked_travel_time :: int
  score :: real

text \<open>
  The two local variables after the guards \<^verbatim>\<open>if travel_time == 0: travel_time = 1\<close> and
  \<^verbatim>\<open>if wait_time == 0: wait_time = 1\<close>: the numbers the score divides by.
\<close>

definition denominators :: "HospitalAvailability \<Rightarrow> TrafficAnalysis \<Rightarrow> int \<times> int" where
  "denominators availability traffic =
     (let travel_time0 = travel_time traffic;
          wait_time0 = wait_time availability;
          travel_time1 = (if travel_time0 = 0 then 1 else travel_time0);
          wait_time1 = (if wait_time0 = 0 then 1 else wait_time0)
      in (travel_time1, wait_time1))"

text \<open>
  \<^verbatim>\<open>0.7 * (1 / travel_time) + 0.3 * (1 / wait_time)\<close>: the literals are the doubles nearest to
  7/10 and 3/10, and each of the two quotients, the two products and the sum is rounded.
\<close>

definition weighted_score :: "int \<Rightarrow> int \<Rightarrow> PyError + real" where
  "weighted_score travel_time1 wait_time1 =
     (case true_div 1 travel_time1 of
        Inl e \<Rightarrow> Inl e
      | Inr a \<Rightarrow>
         (case true_div 1 wait_time1 of
            Inl e \<Rightarrow> Inl e
          | Inr b \<Rightarrow> Inr (fadd (fmul (round_double 0.7) a) (fmul (round_double 0.3) b))))"

definition rank_entry ::
  "Hospital \<Rightarrow> HospitalAvailability \<Rightarrow> TrafficAnalysis \<Rightarrow> PyError + RankedHospital" where
  "rank_entry h availability traffic =
     (case denominators availability traffic of
        (travel_time1, wait_time1) \<Rightarrow>
          (case weighted_score travel_time1 wait_time1 of
             Inl e \<Rightarrow> Inl e
           | Inr s \<Rightarrow> Inr \<lparr>hospital = h, ranked_travel_time = travel_time1, score = s\<rparr>))"

text \<open>
  The calls the protocol makes to its collaborators, in order: the availability check, the
  traffic analysis, the alert to a hospital, and the notification of one contact (one per
  iteration of the loop of \<^verbatim>\<open>_notify_contacts\<close>).
\<close>

datatype Call =
  CheckAvailability Hospital
  | AnalyzeTraffic Hospital
  | SendAlert Hospital
  | Notify EmergencyContact

text \<open>
  The class \<^verbatim>\<open>Config\<close> holds the hospital list and the contact list as class attributes. The
  functions that read them take the configuration as an argument, so that the properties
  below hold for every list and not only for the two hospitals and two contacts of the source.
\<close>

record Config =
  PRESELECTED_HOSPITALS :: "Hospital list"
  EMERGENCY_CONTACTS :: "EmergencyContact list"

text \<open>
  The \<^verbatim>\<open>for\<close> loop of \<^verbatim>\<open>_select_optimal_hospital\<close>, with the position \<open>i\<close> of the hospital in the
  list, the list \<^verbatim>\<open>ranked_hospitals\<close> built so far and the calls made so far. An exception stops
  the loop.
\<close>

fun rank_hospitals ::
  "EmergencyAssistantAI \<Rightarrow> (nat \<Rightarrow> Draw) \<Rightarrow> nat \<Rightarrow> Hospital list
     \<Rightarrow> RankedHospital list \<times> Call list \<Rightarrow> (PyError + RankedHospital list) \<times> Call list" where
  "rank_hospitals self rng i [] (ranked, cs) = (Inr ranked, cs)"
| "rank_hospitals self rng i (h # hs) (ranked, cs) =
     (let availability = check_hospital_availability h (rng i);
          traffic = analyze_traffic self h (rng i);
          cs' = cs @ [CheckAvailability h, AnalyzeTraffic h]
      in if available availability
         then (case rank_entry h availability traffic of
                 Inl e \<Rightarrow> (Inl e, cs')
               | Inr r \<Rightarrow> rank_hospitals self rng (Suc i) hs (ranked @ [r], cs'))
         else rank_hospitals self rng (Suc i) hs (ranked, cs'))"

text \<open>
  \<^verbatim>\<open>sorted(xs, key=key, reverse=True)\<close>. Python's sort is stable, and with \<^verbatim>\<open>reverse=True\<close> it
  stays so: the list is reversed, sorted stably in ascending order, and reversed again, so
  that entries with equal keys keep their original order.
\<close>

definition sorted_reverse :: "('a \<Rightarrow> 'k::linorder) \<Rightarrow> 'a list \<Rightarrow> 'a list" where
  "sorted_reverse key xs = rev (sort_key key (rev xs))"

definition select_optimal_hospital ::
  "Config \<Rightarrow> EmergencyAssistantAI \<Rightarrow> (nat \<Rightarrow> Draw) \<Rightarrow> (PyError + Hospital option) \<times> Call list" where
  "select_optimal_hospital cfg self rng =
     (case rank_hospitals self rng 0 (PRESELECTED_HOSPITALS cfg) ([], []) of
        (Inl e, cs) \<Rightarrow> (Inl e, cs)
      | (Inr ranked_hospitals, cs) \<Rightarrow>
          if ranked_hospitals = [] then (Inr None, cs)
          else (case sorted_reverse score ranked_hospitals of
                  [] \<Rightarrow> (Inl IndexError, cs)
                | r # _ \<Rightarrow> (Inr (Some (hospital r)), cs)))"

text \<open>
  For stating the properties of a selection run: the availability report and the traffic
  report that the hospital at position \<open>j\<close> receives, and the score the loop computes from
  them.
\<close>

definition availability_at ::
  "Config \<Rightarrow> (nat \<Rightarrow> Draw) \<Rightarrow> nat \<Rightarrow> HospitalAvailability" where
  "availability_at cfg rng j = check_hospital_availability (PRESELECTED_HOSPITALS cfg ! j) (rng j)"

definition traffic_at ::
  "Config \<Rightarrow> EmergencyAssistantAI \<Rightarrow> (nat \<Rightarrow> Draw) \<Rightarrow> nat \<Rightarrow> TrafficAnalysis" where
  "traffic_at cfg self rng j = analyze_traffic self (PRESELECTED_HOSPITALS cfg ! j) (rng j)"

definition score_at :: "Config \<Rightarrow> EmergencyAssistantAI \<Rightarrow> (nat \<Rightarrow> Draw) \<Rightarrow> nat \<Rightarrow> real" where
  "score_at cfg self rng j =
     (case rank_entry (PRESELECTED_HOSPITALS cfg ! j) (availability_at cfg rng j)
             (traffic_at cfg self rng j) of
        Inl e \<Rightarrow> 0
      | Inr r \<Rightarrow> score r)"

text \<open>The entry that the loop body appends for hospital \<open>h\<close> under the draws \<open>d\<close>, in closed form.\<close>

definition entry_of :: "EmergencyAssistantAI \<Rightarrow> Hospital \<Rightarrow> Draw \<Rightarrow> RankedHospital" where
  "entry_of self h d =
     (case denominators (check_hospital_availability h d) (analyze_traffic self h d) of
        (t, w) \<Rightarrow>
          \<lparr>hospital = h, ranked_travel_time = t,
           score = fadd (fmul (round_double 0.7) (round_double (1 / real_of_int t)))
                        (fmul (round_double 0.3) (round_double (1 / real_of_int w)))\<rparr>)"

section \<open>Notification and the protocol\<close>

text \<open>
  \<^verbatim>\<open>_send_emergency_alert\<close> formats a message that it never uses and logs the hospital it
  alerts; \<^verbatim>\<open>_notify_contacts\<close> logs one notification per configured contact, in list order.
\<close>

definition send_emergency_alert :: "EmergencyAssistantAI \<Rightarrow> Hospital \<Rightarrow> Call list" where
  "send_emergency_alert self h = [SendAlert h]"

definition notify_contacts :: "Config \<Rightarrow> Call list" where
  "notify_contacts cfg = map Notify (EMERGENCY_CONTACTS cfg)"

text \<open>
  How a run of the protocol ends: the four exits of \<^verbatim>\<open>execute_emergency_protocol\<close>, named after
  what each one logs, and an exception escaping from the selection.
\<close>

datatype Outcome =
  NoEmergencyDetected
  | CriticalCondition
  | NoAvailableHospital
  | Completed Hospital
  | Raised PyError

record Run =
  agent :: EmergencyAssistantAI
  calls :: "Call list"
  outcome :: Outcome

definition listen_for_voice_command :: string where
  "listen_for_voice_command = ''I feel a sharp pain in my chest and my arm is numb.''"

text \<open>
  The body of \<^verbatim>\<open>execute_emergency_protocol\<close> after step 1 has obtained \<open>voice_input\<close> from the
  listener and \<open>auto_detected\<close> from the simulated sensor, which draws it at random. An empty
  string is Python's only false string, and a \<^verbatim>\<open>Hospital\<close> object is always true, so
  \<^verbatim>\<open>not best_hospital\<close> holds for \<^verbatim>\<open>None\<close> alone.
\<close>

definition emergency_protocol ::
  "Config \<Rightarrow> EmergencyAssistantAI \<Rightarrow> string \<Rightarrow> bool \<Rightarrow> (nat \<Rightarrow> Draw) \<Rightarrow> Run" where
  "emergency_protocol cfg self voice_input auto_detected rng =
     (if voice_input = [] \<and> \<not> auto_detected
      then \<lparr>agent = self, calls = [], outcome = NoEmergencyDetected\<rparr>
      else
        (case analyze_symptoms voice_input of
           (summary, severity) \<Rightarrow>
             (let self' = self\<lparr>current_symptoms := summary, symptom_severity := severity\<rparr>
              in if symptom_severity self' = ''critical''
                 then \<lparr>agent = self', calls = notify_contacts cfg, outcome = CriticalCondition\<rparr>
                 else
                   (case select_optimal_hospital cfg self' rng of
                      (Inl e, cs) \<Rightarrow> \<lparr>agent = self', calls = cs, outcome = Raised e\<rparr>
                    | (Inr None, cs) \<Rightarrow>
                        \<lparr>agent = self', calls = cs @ notify_contacts cfg,
                         outcome = NoAvailableHospital\<rparr>
                    | (Inr (Some best_hospital), cs) \<Rightarrow>
                        \<lparr>agent = self',
                         calls = cs @ send_emergency_alert self' best_hospital
                                   @ notify_contacts cfg,
                         outcome = Completed best_hospital\<rparr>))))"

definition execute_emergency_protocol ::
  "Config \<Rightarrow> EmergencyAssistantAI \<Rightarrow> bool \<Rightarrow> (nat \<Rightarrow> Draw) \<Rightarrow> Run" where
  "execute_emergency_protocol cfg self auto_detected rng =
     emergency_protocol cfg self listen_for_voice_command auto_detected rng"

text \<open>The contacts notified and the hospitals alerted by a sequence of calls, in order.\<close>

fun notified :: "Call list \<Rightarrow> EmergencyContact list" where
  "notified [] = []"
| "notified (Notify c # cs) = c # notified cs"
| "notified (_ # cs) = notified cs"

fun alerted :: "Call list \<Rightarrow> Hospital list" where
  "alerted [] = []"
| "alerted (SendAlert h # cs) = h # alerted cs"
| "alerted (_ # cs) = alerted cs"

text \<open>The calls that only hospital selection makes.\<close>

fun selection_calls :: "Call list \<Rightarrow> Call list" where
  "selection_calls [] = []"
| "selection_calls (CheckAvailability h # cs) = CheckAvailability h # selection_calls cs"
| "selection_calls (AnalyzeTraffic h # cs) = AnalyzeTraffic h # selection_calls cs"
| "selection_calls (_ # cs) = selection_calls cs"

section \<open>The configuration of the source and sample runs\<close>

text \<open>
  The class \<^verbatim>\<open>Config\<close> and the assistant of the example at the end of the file. A coordinate
  written as a decimal literal is the double nearest to it.
\<close>

definition hosp_a :: Hospital where
  "hosp_a = \<lparr>hospital_id = ''hosp_a'', name = ''City General Hospital'',
             address = ''123 Main St, Anytown'', contact_number = ''+11234567890'',
             coordinates = \<lparr>lat = round_double 34.0522, lon = round_double (- 118.2437)\<rparr>\<rparr>"

definition hosp_b :: Hospital where
  "hosp_b = \<lparr>hospital_id = ''hosp_b'', name = ''Community Care Center'',
             address = ''456 Oak Ave, Anytown'', contact_number = ''+11234567891'',
             coordinates = \<lparr>lat = round_double 34.0600, lon = round_double (- 118.2500)\<rparr>\<rparr>"

definition family_member :: EmergencyContact where
  "family_member = \<lparr>contact_name = ''Family Member'', phone = ''+19876543210''\<rparr>"

definition close_friend :: EmergencyContact where
  "close_friend = \<lparr>contact_name = ''Close Friend'', phone = ''+19998887777''\<rparr>"

definition Config_source :: Config where
  "Config_source = \<lparr>PRESELECTED_HOSPITALS = [hosp_a, hosp_b],
                    EMERGENCY_CONTACTS = [family_member, close_friend]\<rparr>"

definition assistant :: EmergencyAssistantAI where
  "assistant = \<lparr>patient_address = ''123 Main St, Apt 4B'',
                patient_coordinates = \<lparr>lat = round_double 34.0550,
                                        lon = round_double (- 118.2450)\<rparr>,
                medical_history = \<lparr>allergies = [''Penicillin''], conditions = [''Asthma''],
                                   medications = [''Inhaler'']\<rparr>,
                current_symptoms = [], symptom_severity = ''unknown''\<rparr>"

text \<open>
  For the sample runs, a \<^verbatim>\<open>pow\<close> that is correctly rounded at the two exponents the source
  uses.
\<close>

definition rounded_pow :: "real \<Rightarrow> real \<Rightarrow> real" where
  "rounded_pow x y = round_double (if y = 2 then x * x else sqrt x)"

text \<open>Draws for sample runs: only the first hospital accepts; no hospital accepts.\<close>

definition first_accepts :: "nat \<Rightarrow> Draw" where
  "first_accepts i = \<lparr>choice = (i = 0), randint = 5, uniform = 2, libm_pow = rounded_pow\<rparr>"

definition none_accepts :: "nat \<Rightarrow> Draw" where
  "none_accepts i = \<lparr>choice = False, randint = 5, uniform = 2, libm_pow = rounded_pow\<rparr>"

text \<open>
  A second configuration, for the worked example of the specification: the patient is at the
  origin, hospital \<open>far\<close> lies 1/32 of a degree to the north, which the source counts as
  111/32 = 3.46875 km, hospital \<open>near\<close> half as far, and hospital \<open>here\<close> is where the patient
  is. With the factor 3 drawn, the travel times are 10, 5 and 0.
\<close>

definition far :: Hospital where
  "far = \<lparr>hospital_id = ''far'', name = ''A'', address = [], contact_number = [],
          coordinates = \<lparr>lat = 1 / 32, lon = 0\<rparr>\<rparr>"

definition near :: Hospital where
  "near = \<lparr>hospital_id = ''near'', name = ''B'', address = [], contact_number = [],
           coordinates = \<lparr>lat = 1 / 64, lon = 0\<rparr>\<rparr>"

definition here :: Hospital where
  "here = \<lparr>hospital_id = ''here'', name = ''C'', address = [], contact_number = [],
           coordinates = \<lparr>lat = 0, lon = 0\<rparr>\<rparr>"

definition at_origin :: EmergencyAssistantAI where
  "at_origin = \<lparr>patient_address = [], patient_coordinates = \<lparr>lat = 0, lon = 0\<rparr>,
                medical_history = \<lparr>allergies = [], conditions = [], medications = []\<rparr>,
                current_symptoms = [], symptom_severity = ''unknown''\<rparr>"

definition Config_far_near :: Config where
  "Config_far_near = \<lparr>PRESELECTED_HOSPITALS = [far, near],
                      EMERGENCY_CONTACTS = [family_member]\<rparr>"

definition waits_10_40 :: "nat \<Rightarrow> Draw" where
  "waits_10_40 i = \<lparr>choice = True, randint = (if i = 0 then 10 else 40), uniform = 3,
                    libm_pow = rounded_pow\<rparr>"

definition Config_here_near :: Config where
  "Config_here_near = \<lparr>PRESELECTED_HOSPITALS = [here, near],
                       EMERGENCY_CONTACTS = [family_member]\<rparr>"

definition waits_5_40 :: "nat \<Rightarrow> Draw" where
  "waits_5_40 i = \<lparr>choice = True, randint = (if i = 0 then 5 else 40), uniform = 3,
                   libm_pow = rounded_pow\<rparr>"

text \<open>Two hospitals at the same place with the same draws: their scores tie.\<close>

definition twin :: Hospital where
  "twin = near\<lparr>hospital_id := ''twin''\<rparr>"

definition Config_twins :: Config where
  "Config_twins = \<lparr>PRESELECTED_HOSPITALS = [near, twin],
                   EMERGENCY_CONTACTS = [family_member]\<rparr>"

definition same_draws :: "nat \<Rightarrow> Draw" where
  "same_draws i = \<lparr>choice = True, randint = 10, uniform = 3, libm_pow = rounded_pow\<rparr>"

text \<open>
  Two hospitals at the place of \<open>far\<close> whose reports are travel time 6 with waiting time 36
  and travel time 8 with waiting time 8. In exact arithmetic both scores are 1/8; the doubles
  the source computes are 0.12499999999999999 and 0.125.
\<close>

definition far2 :: Hospital where
  "far2 = far\<lparr>hospital_id := ''far2''\<rparr>"

definition Config_near_tie :: Config where
  "Config_near_tie = \<lparr>PRESELECTED_HOSPITALS = [far, far2],
                      EMERGENCY_CONTACTS = [family_member]\<rparr>"

definition near_tie_draws :: "nat \<Rightarrow> Draw" where
  "near_tie_draws i = \<lparr>choice = True, randint = (if i = 0 then 36 else 8),
                       uniform = (if i = 0 then 2 else 5 / 2), libm_pow = rounded_pow\<rparr>"

section \<open>Facts about strings\<close>

lemma lower_append: "lower (s @ t) = lower s @ lower t"
  by (simp add: lower_def)

lemma str_in_sublist: "str_in sub s = sublist sub s"
  by (induction s) (simp_all add: sublist_Cons_right)

lemma str_in_iff: "str_in sub s \<longleftrightarrow> (\<exists>ps ss. s = ps @ sub @ ss)"
  by (simp add: str_in_sublist sublist_def)

lemma str_in_lower:
  assumes "d = ps @ s @ ss"
  shows "str_in (lower s) (lower d)"
  unfolding str_in_iff using assms by (auto simp: lower_append)

section \<open>Triage\<close>

text \<open>
  C5. A description that contains some spelling of "chest pain", in any mix of upper and lower
  case, and also some spelling of "arm" or of "left", is classified critical with the fixed
  summary "Severe chest pain, arm numbness". An occurrence in any letter case is a block \<open>s\<close>
  of the description with \<open>lower s\<close> equal to the keyword.
\<close>

theorem chest_pain_arm_critical:
  assumes "d = ps @ s @ ss" and "lower s = ''chest pain''"
    and "d = ps' @ t @ ss'" and "lower t = ''arm'' \<or> lower t = ''left''"
  shows "analyze_symptoms d = (''Severe chest pain, arm numbness'', ''critical'')"
proof -
  have cp: "str_in ''chest pain'' (lower d)"
    using str_in_lower [OF assms(1)] assms(2) by simp
  have "str_in (lower t) (lower d)"
    by (rule str_in_lower [OF assms(3)])
  with assms(4) have "str_in ''arm'' (lower d) \<or> str_in ''left'' (lower d)"
    by auto
  with cp show ?thesis
    by (simp add: analyze_symptoms_def)
qed

theorem chest_pain_arm_critical_witness:
  "analyze_symptoms ''Sudden CHEST Pain, my Left side hurts''
     = (''Severe chest pain, arm numbness'', ''critical'')"
proof -
  have cp: "lower ''CHEST Pain'' = ''chest pain''"
    by code_simp
  have lf: "lower ''Left'' = ''arm'' \<or> lower ''Left'' = ''left''"
    by code_simp
  show ?thesis
    by (rule chest_pain_arm_critical
          [where ps = "''Sudden ''" and ss = "'', my Left side hurts''"
             and ps' = "''Sudden CHEST Pain, my ''" and ss' = "'' side hurts''",
           OF _ cp _ lf])
       simp_all
qed

text \<open>
  C6. The rules are tried in order and the first match wins: a description whose lower-cased
  text has the keywords of rule 1 ("chest pain" with "arm" or "left") and also the keyword of
  rule 2 ("difficulty breathing") gets the result of rule 1, whose summary differs from the
  summary of rule 2.
\<close>

theorem rule1_before_rule2:
  assumes "str_in ''chest pain'' (lower d)"
    and "str_in ''arm'' (lower d) \<or> str_in ''left'' (lower d)"
    and "str_in ''difficulty breathing'' (lower d)"
  shows "analyze_symptoms d = (''Severe chest pain, arm numbness'', ''critical'')
         \<and> analyze_symptoms d \<noteq> (''Difficulty breathing'', ''critical'')"
  using assms by (simp add: analyze_symptoms_def)

theorem rule1_before_rule2_witness:
  "analyze_symptoms ''Chest pain in my arm and difficulty breathing''
     = (''Severe chest pain, arm numbness'', ''critical'')
   \<and> analyze_symptoms ''Chest pain in my arm and difficulty breathing''
     \<noteq> (''Difficulty breathing'', ''critical'')"
proof -
  have r1: "str_in ''chest pain'' (lower ''Chest pain in my arm and difficulty breathing'')"
    by code_simp
  have r1': "str_in ''arm'' (lower ''Chest pain in my arm and difficulty breathing'')
             \<or> str_in ''left'' (lower ''Chest pain in my arm and difficulty breathing'')"
    by code_simp
  have r2: "str_in ''difficulty breathing''
              (lower ''Chest pain in my arm and difficulty breathing'')"
    by code_simp
  show ?thesis
    by (rule rule1_before_rule2 [OF r1 r1' r2])
qed

text \<open>
  C7. A description that matches neither rule 1 nor rule 2 is classified moderate, and its
  summary is the lower-cased description itself. The function has no failing branch: on every
  description it returns a pair whose severity is "critical" or "moderate".
\<close>

theorem default_rule_moderate:
  "(\<not> (str_in ''chest pain'' (lower d)
        \<and> (str_in ''arm'' (lower d) \<or> str_in ''left'' (lower d)))
     \<and> \<not> str_in ''difficulty breathing'' (lower d)
     \<longrightarrow> analyze_symptoms d = (lower d, ''moderate''))
   \<and> (snd (analyze_symptoms d) = ''critical'' \<or> snd (analyze_symptoms d) = ''moderate'')"
  by (simp add: analyze_symptoms_def Let_def)

theorem default_rule_moderate_witness:
  "analyze_symptoms ''My Head hurts'' = (''my head hurts'', ''moderate'')"
proof -
  have n1: "\<not> (str_in ''chest pain'' (lower ''My Head hurts'')
               \<and> (str_in ''arm'' (lower ''My Head hurts'')
                    \<or> str_in ''left'' (lower ''My Head hurts'')))"
    by code_simp
  have n2: "\<not> str_in ''difficulty breathing'' (lower ''My Head hurts'')"
    by code_simp
  have lw: "lower ''My Head hurts'' = ''my head hurts''"
    by code_simp
  from default_rule_moderate [of "''My Head hurts''"] n1 n2
  have "analyze_symptoms ''My Head hurts'' = (lower ''My Head hurts'', ''moderate'')"
    by blast
  then show ?thesis
    by (simp only: lw)
qed

section \<open>Facts about rounding\<close>

lemma round_half_even_of_int: "round_half_even (real_of_int n) = n"
  by (simp add: round_half_even_def)

lemma round_half_even_le: "y \<le> real_of_int N \<Longrightarrow> round_half_even y \<le> N"
proof -
  assume y: "y \<le> real_of_int N"
  then have fl: "\<lfloor>y\<rfloor> \<le> N" by (simp add: floor_le_iff) 
  show ?thesis
  proof (cases "y = real_of_int N")
    case True
    then show ?thesis by (simp add: round_half_even_of_int)
  next
    case False
    with y have "y < real_of_int N" by simp
    then have "\<lfloor>y\<rfloor> < N" by (simp add: floor_less_iff)
    then have "\<lfloor>y\<rfloor> + 1 \<le> N" by simp
    with fl show ?thesis
      by (auto simp: round_half_even_def Let_def)
  qed
qed

lemma round_half_even_ge: "real_of_int N \<le> y \<Longrightarrow> N \<le> round_half_even y"
proof -
  assume "real_of_int N \<le> y"
  then have "N \<le> \<lfloor>y\<rfloor>" by (simp add: le_floor_iff)
  then show ?thesis
    by (auto simp: round_half_even_def Let_def)
qed

lemma two_powi_nonneg: "0 \<le> j \<Longrightarrow> (2::real) powi j = real_of_int (2 ^ nat j)"
  by (simp add: power_int_def)

lemma two_powi_pos [simp]: "0 < (2::real) powi j"
  by simp

lemma floor_log2_bounds:
  assumes "0 < x"
  shows "2 powi \<lfloor>log 2 x\<rfloor> \<le> x" and "x < 2 powi (\<lfloor>log 2 x\<rfloor> + 1)"
proof -
  have "2 powr real_of_int \<lfloor>log 2 x\<rfloor> \<le> x \<and> x < 2 powr real_of_int (\<lfloor>log 2 x\<rfloor> + 1)"
    using floor_log_eq_powr_iff [of x 2 "\<lfloor>log 2 x\<rfloor>"] assms by simp
  moreover have "2 powr (real_of_int \<lfloor>log 2 x\<rfloor> + 1) = 2 powi (\<lfloor>log 2 x\<rfloor> + 1)"
    using powr_real_of_int' [of 2 "\<lfloor>log 2 x\<rfloor> + 1"] by simp
  ultimately show "2 powi \<lfloor>log 2 x\<rfloor> \<le> x" and "x < 2 powi (\<lfloor>log 2 x\<rfloor> + 1)"
    by (simp_all add: powr_real_of_int')
qed

lemma floor_log2_eq:
  assumes "2 powi k \<le> x" and "x < 2 powi (k + 1)"
  shows "\<lfloor>log 2 x\<rfloor> = k"
proof -
  have "0 < x"
    using assms(1) two_powi_pos [of k] by linarith
  moreover have "2 powr (real_of_int k + 1) = 2 powi (k + 1)"
    using powr_real_of_int' [of 2 "k + 1"] by simp
  then have "2 powr real_of_int k \<le> x \<and> x < 2 powr real_of_int (k + 1)"
    using assms by (simp add: powr_real_of_int')
  ultimately show ?thesis
    using floor_log_eq_powr_iff [of x 2 k] by simp
qed

lemma floor_log2_ge:
  assumes "2 powi k \<le> x"
  shows "k \<le> \<lfloor>log 2 x\<rfloor>"
proof (rule ccontr)
  assume "\<not> k \<le> \<lfloor>log 2 x\<rfloor>"
  then have "\<lfloor>log 2 x\<rfloor> + 1 \<le> k" by simp
  then have "(2::real) powi (\<lfloor>log 2 x\<rfloor> + 1) \<le> 2 powi k"
    by (intro power_int_increasing) simp_all
  moreover have "0 < x"
    using assms two_powi_pos [of k] by linarith
  ultimately show False
    using floor_log2_bounds(2) [of x] assms by linarith
qed

lemma floor_log2_less:
  assumes "0 < x" and "x < 2 powi k"
  shows "\<lfloor>log 2 x\<rfloor> < k"
proof (rule ccontr)
  assume "\<not> \<lfloor>log 2 x\<rfloor> < k"
  then have "(2::real) powi k \<le> 2 powi \<lfloor>log 2 x\<rfloor>"
    by (intro power_int_increasing) simp_all
  then show False
    using floor_log2_bounds(1) [OF assms(1)] assms(2) by linarith
qed

lemma round_double_eval:
  assumes "2 powi k \<le> \<bar>x\<bar>" and "\<bar>x\<bar> < 2 powi (k + 1)" and "- 1022 \<le> k"
  shows "round_double x =
           real_of_int (round_half_even (x / 2 powi (k - 52))) * 2 powi (k - 52)"
proof -
  have "0 < \<bar>x\<bar>"
    using assms(1) two_powi_pos [of k] by linarith
  then have "x \<noteq> 0"
    by simp
  moreover have "double_exponent x = k - 52"
    using floor_log2_eq [OF assms(1,2)] assms(3) by (simp add: double_exponent_def)
  ultimately show ?thesis
    by (simp add: round_double_def)
qed

lemma round_double_0 [simp]: "round_double 0 = 0"
  by (simp add: round_double_def)

lemma round_double_nonneg: "0 \<le> x \<Longrightarrow> 0 \<le> round_double x"
proof -
  assume x: "0 \<le> x"
  have "0 \<le> round_half_even (x / 2 powi double_exponent x)"
    by (rule round_half_even_ge) (use x in simp)
  then show ?thesis
    by (simp add: round_double_def)
qed

lemma dyadic_multiple:
  assumes "q \<le> e"
  shows "real_of_int m * 2 powi e = real_of_int (m * 2 ^ nat (e - q)) * 2 powi q"
proof -
  have "(2::real) powi e = 2 powi (e - q) * 2 powi q"
    by (simp flip: power_int_add)
  also have "(2::real) powi (e - q) = real_of_int (2 ^ nat (e - q))"
    using assms by (intro two_powi_nonneg) simp
  finally show ?thesis by simp
qed

lemma double_exponent_le:
  assumes "0 < x" and "x \<le> real_of_int m * 2 powi e" and "m < 2 ^ 53" and "- 1074 \<le> e"
  shows "double_exponent x \<le> e"
proof -
  have "real_of_int m < 2 powi 53"
    using assms(3) by (simp add: of_int_less_numeral_power_cancel_iff)
  then have "real_of_int m * 2 powi e < 2 powi 53 * 2 powi e"
    by (intro mult_strict_right_mono) simp_all
  also have "\<dots> = 2 powi (53 + e)"
    by (simp add: power_int_add)
  finally have "x < 2 powi (53 + e)"
    using assms(2) by linarith
  from floor_log2_less [OF assms(1) this] assms(1,4) show ?thesis
    by (simp add: double_exponent_def)
qed

lemma round_double_le:
  assumes "0 \<le> x" and "x \<le> real_of_int m * 2 powi e" and "m < 2 ^ 53" and "- 1074 \<le> e"
  shows "round_double x \<le> real_of_int m * 2 powi e"
proof (cases "x = 0")
  case True
  with assms(2) show ?thesis by simp
next
  case False
  with assms(1) have pos: "0 < x" by simp
  let ?q = "double_exponent x"
  let ?N = "m * 2 ^ nat (e - ?q)"
  have qe: "?q \<le> e"
    by (rule double_exponent_le [OF pos assms(2,3,4)])
  have r: "real_of_int m * 2 powi e = real_of_int ?N * 2 powi ?q"
    by (rule dyadic_multiple [OF qe])
  have "x / 2 powi ?q \<le> real_of_int ?N"
    using assms(2) unfolding r by (simp add: field_simps)
  then have "round_half_even (x / 2 powi ?q) \<le> ?N"
    by (rule round_half_even_le)
  then have "real_of_int (round_half_even (x / 2 powi ?q)) \<le> real_of_int ?N"
    by (subst of_int_le_iff)
  then have "real_of_int (round_half_even (x / 2 powi ?q)) * 2 powi ?q
               \<le> real_of_int ?N * 2 powi ?q"
    by (rule mult_right_mono) simp
  then show ?thesis
    using False unfolding r by (simp add: round_double_def)
qed

lemma round_double_ge_power:
  assumes "2 powi k \<le> x" and "- 1074 \<le> k"
  shows "2 powi k \<le> round_double x"
proof -
  have pos: "0 < x"
    using assms(1) two_powi_pos [of k] by linarith
  let ?K = "\<lfloor>log 2 x\<rfloor>"
  let ?q = "double_exponent x"
  have kK: "k \<le> ?K"
    by (rule floor_log2_ge [OF assms(1)])
  have qK: "?q \<le> ?K"
    unfolding double_exponent_def abs_of_pos [OF pos] using kK assms(2) by linarith
  have "(2::real) powi ?K = real_of_int (1 * 2 ^ nat (?K - ?q)) * 2 powi ?q"
    using dyadic_multiple [OF qK, of 1] by simp
  then have K: "(2::real) powi ?K = real_of_int (2 ^ nat (?K - ?q)) * 2 powi ?q"
    by simp
  have "real_of_int (2 ^ nat (?K - ?q)) \<le> x / 2 powi ?q"
    using floor_log2_bounds(1) [OF pos] unfolding K by (simp add: field_simps)
  then have "2 ^ nat (?K - ?q) \<le> round_half_even (x / 2 powi ?q)"
    by (rule round_half_even_ge)
  then have "real_of_int (2 ^ nat (?K - ?q)) \<le> real_of_int (round_half_even (x / 2 powi ?q))"
    by (subst of_int_le_iff)
  then have "real_of_int (2 ^ nat (?K - ?q)) * 2 powi ?q
               \<le> real_of_int (round_half_even (x / 2 powi ?q)) * 2 powi ?q"
    by (rule mult_right_mono) simp
  then have "2 powi ?K \<le> round_double x"
    using pos unfolding K by (simp add: round_double_def)
  moreover have "(2::real) powi k \<le> 2 powi ?K"
    using kK by (intro power_int_increasing) simp_all
  ultimately show ?thesis by linarith
qed

lemma round_double_fixed:
  assumes "\<bar>m\<bar> < 2 ^ 53" and "- 1074 \<le> e"
  shows "round_double (real_of_int m * 2 powi e) = real_of_int m * 2 powi e"
proof (cases "m = 0")
  case True
  then show ?thesis by simp
next
  case False
  let ?x = "real_of_int m * 2 powi e"
  let ?q = "double_exponent ?x"
  have nz: "?x \<noteq> 0"
    using False by simp
  have abs: "\<bar>?x\<bar> = real_of_int \<bar>m\<bar> * 2 powi e"
    by (simp add: abs_mult)
  have "double_exponent \<bar>?x\<bar> \<le> e"
    by (rule double_exponent_le [of _ "\<bar>m\<bar>"]) (use False assms abs in simp_all)
  then have qe: "?q \<le> e"
    by (simp add: double_exponent_def)
  have "?x / 2 powi ?q = real_of_int (m * 2 ^ nat (e - ?q))"
    using dyadic_multiple [OF qe, of m] by (simp add: field_simps)
  then have "round_half_even (?x / 2 powi ?q) = m * 2 ^ nat (e - ?q)"
    by (simp only: round_half_even_of_int)
  then have "real_of_int (round_half_even (?x / 2 powi ?q)) * 2 powi ?q = ?x"
    using dyadic_multiple [OF qe, of m] by (simp only:)
  with nz show ?thesis
    by (simp add: round_double_def)
qed

lemma double_0_7: "round_double 0.7 = 3152519739159347 / 4503599627370496"
  by (subst round_double_eval [where k = "- 1"]) (simp_all add: round_half_even_def)

lemma double_0_3: "round_double 0.3 = 5404319552844595 / 18014398509481984"
  by (subst round_double_eval [where k = "- 2"]) (simp_all add: round_half_even_def)

lemma double_0_1475: "round_double 0.1475 = 5314247560297185 / 36028797018963968"
  by (subst round_double_eval [where k = "- 3"]) (simp_all add: round_half_even_def)

lemma double_0_10: "round_double 0.10 = 3602879701896397 / 36028797018963968"
  by (subst round_double_eval [where k = "- 4"]) (simp_all add: round_half_even_def)

section \<open>Facts about sorting\<close>

lemma last_insort_key:
  "sorted (map f zs) \<Longrightarrow>
   last (insort_key f x zs) = (if zs = [] \<or> f (last zs) < f x then x else last zs)"
proof (induction zs)
  case Nil
  then show ?case by simp
next
  case (Cons y ys)
  then show ?case
    by (cases ys) (auto simp: not_less)
qed

lemma sort_key_Nil_iff: "sort_key f ys = [] \<longleftrightarrow> ys = []"
  using length_sort [of f ys] by (metis length_0_conv)

lemma hd_sorted_reverse_snoc:
  "hd (sorted_reverse f (xs @ [x])) =
     (if xs = [] \<or> f (hd (sorted_reverse f xs)) < f x then x else hd (sorted_reverse f xs))"
  by (simp add: sorted_reverse_def hd_rev last_insort_key sort_key_Nil_iff)

lemma sorted_reverse_Nil_iff: "sorted_reverse f xs = [] \<longleftrightarrow> xs = []"
  by (simp add: sorted_reverse_def sort_key_Nil_iff)

lemma hd_sorted_reverse_first_max:
  "xs \<noteq> [] \<Longrightarrow>
   \<exists>i<length xs. hd (sorted_reverse f xs) = xs ! i
      \<and> (\<forall>j<length xs. f (xs ! j) \<le> f (xs ! i))
      \<and> (\<forall>j<i. f (xs ! j) < f (xs ! i))"
proof (induction xs rule: rev_induct)
  case Nil
  then show ?case by simp
next
  case (snoc x xs)
  show ?case
  proof (cases "xs = []")
    case True
    then show ?thesis by (simp add: sorted_reverse_def)
  next
    case False
    with snoc.IH obtain i where i: "i < length xs" "hd (sorted_reverse f xs) = xs ! i"
      "\<forall>j<length xs. f (xs ! j) \<le> f (xs ! i)" "\<forall>j<i. f (xs ! j) < f (xs ! i)"
      by blast
    show ?thesis
    proof (cases "f (xs ! i) < f x")
      case True
      have "hd (sorted_reverse f (xs @ [x])) = (xs @ [x]) ! length xs"
        using True i(2) False by (simp add: hd_sorted_reverse_snoc)
      moreover have "\<forall>j<length (xs @ [x]). f ((xs @ [x]) ! j) \<le> f ((xs @ [x]) ! length xs)"
        using True i(3) by (auto simp: nth_append less_Suc_eq intro: order.trans less_imp_le)
      moreover have "\<forall>j<length xs. f ((xs @ [x]) ! j) < f ((xs @ [x]) ! length xs)"
        using True i(3) by (auto simp: nth_append intro: le_less_trans)
      ultimately show ?thesis
        by (intro exI [of _ "length xs"]) simp
    next
      case nlt: False
      have "hd (sorted_reverse f (xs @ [x])) = (xs @ [x]) ! i"
        using nlt i(1,2) False by (simp add: hd_sorted_reverse_snoc nth_append)
      moreover have "\<forall>j<length (xs @ [x]). f ((xs @ [x]) ! j) \<le> f ((xs @ [x]) ! i)"
        using nlt i(1,3) by (auto simp: nth_append less_Suc_eq not_less)
      moreover have "\<forall>j<i. f ((xs @ [x]) ! j) < f ((xs @ [x]) ! i)"
        using i(1,4) by (auto simp: nth_append)
      ultimately show ?thesis
        using i(1) by (intro exI [of _ i]) simp
    qed
  qed
qed

section \<open>Facts about the selection loop\<close>

lemma denominators_nonzero:
  "fst (denominators a t) \<noteq> 0 \<and> snd (denominators a t) \<noteq> 0"
  by (simp add: denominators_def Let_def)

lemma rank_entry_entry_of:
  "rank_entry h (check_hospital_availability h d) (analyze_traffic self h d)
     = Inr (entry_of self h d)"
  using denominators_nonzero [of "check_hospital_availability h d" "analyze_traffic self h d"]
  by (auto simp: rank_entry_def entry_of_def weighted_score_def true_div_def split: prod.splits)

lemma hospital_entry_of: "hospital (entry_of self h d) = h"
  by (simp add: entry_of_def split: prod.splits)

lemma available_check: "available (check_hospital_availability h d) = choice d"
  by (simp add: check_hospital_availability_def)

lemma rank_hospitals_Cons:
  "rank_hospitals self rng i (h # hs) (ranked, cs) =
     rank_hospitals self rng (Suc i) hs
       (ranked @ (if choice (rng i) then [entry_of self h (rng i)] else []),
        cs @ [CheckAvailability h, AnalyzeTraffic h])"
  by (simp add: Let_def rank_entry_entry_of available_check)

lemma rank_hospitals_eq:
  "rank_hospitals self rng i hs (ranked, cs) =
     (Inr (ranked @ map (\<lambda>j. entry_of self (hs ! (j - i)) (rng j))
                      (filter (\<lambda>j. choice (rng j)) [i..<i + length hs])),
      cs @ concat (map (\<lambda>h. [CheckAvailability h, AnalyzeTraffic h]) hs))"
proof (induction hs arbitrary: i ranked cs)
  case Nil
  then show ?case by simp
next
  case (Cons h hs)
  let ?P = "\<lambda>j. choice (rng j)"
  let ?tl = "filter ?P [Suc i..<Suc i + length hs]"
  have shift: "map (\<lambda>j. entry_of self (hs ! (j - Suc i)) (rng j)) ?tl
             = map (\<lambda>j. entry_of self ((h # hs) ! (j - i)) (rng j)) ?tl"
  proof (rule map_cong [OF refl])
    fix j
    assume "j \<in> set ?tl"
    then have "j - i = Suc (j - Suc i)"
      by auto
    then show "entry_of self (hs ! (j - Suc i)) (rng j)
                 = entry_of self ((h # hs) ! (j - i)) (rng j)"
      by simp
  qed
  have upt: "[i..<i + length (h # hs)] = i # [Suc i..<Suc i + length hs]"
    using upt_conv_Cons [of i "i + length (h # hs)"] by (simp del: upt_Suc)
  have "rank_hospitals self rng i (h # hs) (ranked, cs) =
          rank_hospitals self rng (Suc i) hs
            (ranked @ (if choice (rng i) then [entry_of self h (rng i)] else []),
             cs @ [CheckAvailability h, AnalyzeTraffic h])"
    by (rule rank_hospitals_Cons)
  also have "\<dots> =
      (Inr ((ranked @ (if choice (rng i) then [entry_of self h (rng i)] else []))
              @ map (\<lambda>j. entry_of self (hs ! (j - Suc i)) (rng j)) ?tl),
       (cs @ [CheckAvailability h, AnalyzeTraffic h])
         @ concat (map (\<lambda>h. [CheckAvailability h, AnalyzeTraffic h]) hs))"
    by (rule Cons.IH)
  also have "\<dots> =
      (Inr (ranked @ map (\<lambda>j. entry_of self ((h # hs) ! (j - i)) (rng j))
                       (filter ?P (i # [Suc i..<Suc i + length hs]))),
       cs @ concat (map (\<lambda>h. [CheckAvailability h, AnalyzeTraffic h]) (h # hs)))"
    unfolding shift by simp
  finally show ?case
    unfolding upt .
qed

lemma select_optimal_hospital_eq:
  "select_optimal_hospital cfg self rng =
     (let hs = PRESELECTED_HOSPITALS cfg;
          ranked = map (\<lambda>j. entry_of self (hs ! j) (rng j))
                     (filter (\<lambda>j. choice (rng j)) [0..<length hs])
      in (if ranked = [] then Inr None
          else Inr (Some (hospital (hd (sorted_reverse score ranked)))),
          concat (map (\<lambda>h. [CheckAvailability h, AnalyzeTraffic h]) hs)))"
proof -
  have "sorted_reverse score xs \<noteq> []" if "xs \<noteq> []" for xs :: "RankedHospital list"
    using that by (simp add: sorted_reverse_Nil_iff)
  then show ?thesis
    using rank_hospitals_eq [of self rng 0 "PRESELECTED_HOSPITALS cfg" "[]" "[]"]
    by (auto simp: select_optimal_hospital_def Let_def split: list.splits)
qed

lemma select_first_max:
  assumes "\<exists>j<length hs. choice (rng j)" and hs: "hs = PRESELECTED_HOSPITALS cfg"
  shows "\<exists>i<length hs. choice (rng i)
           \<and> fst (select_optimal_hospital cfg self rng) = Inr (Some (hs ! i))
           \<and> (\<forall>j<length hs. choice (rng j) \<longrightarrow>
                 score (entry_of self (hs ! j) (rng j)) \<le> score (entry_of self (hs ! i) (rng i)))
           \<and> (\<forall>j<i. choice (rng j) \<longrightarrow>
                 score (entry_of self (hs ! j) (rng j)) < score (entry_of self (hs ! i) (rng i)))"
proof -
  define idx where "idx = filter (\<lambda>j. choice (rng j)) [0..<length hs]"
  define E where "E = (\<lambda>j. entry_of self (hs ! j) (rng j))"
  define ranked where "ranked = map E idx"
  have set_idx: "set idx = {j. j < length hs \<and> choice (rng j)}"
    by (auto simp: idx_def)
  have inc: "sorted_wrt (<) idx"
    unfolding idx_def by (rule sorted_wrt_filter) simp
  from assms(1) have idx_ne: "idx \<noteq> []"
    using set_idx by (metis (mono_tags, lifting) empty_iff list.set(1) mem_Collect_eq)
  then have ne: "ranked \<noteq> []"
    by (simp add: ranked_def)
  from hd_sorted_reverse_first_max [OF ne, of score]
  obtain k where k: "k < length ranked" "hd (sorted_reverse score ranked) = ranked ! k"
    "\<forall>j<length ranked. score (ranked ! j) \<le> score (ranked ! k)"
    "\<forall>j<k. score (ranked ! j) < score (ranked ! k)"
    by blast
  have len: "length ranked = length idx"
    by (simp add: ranked_def)
  have nth: "ranked ! m = E (idx ! m)" if "m < length idx" for m
    using that by (simp add: ranked_def)
  let ?i = "idx ! k"
  have ik: "?i \<in> set idx"
    using k(1) len by simp
  then have i1: "?i < length hs" and i2: "choice (rng ?i)"
    using set_idx by auto
  have sel: "fst (select_optimal_hospital cfg self rng) = Inr (Some (hs ! ?i))"
    using ne idx_ne k(1,2) len nth [of k]
    by (simp add: select_optimal_hospital_eq Let_def hs [symmetric] ranked_def [symmetric]
        idx_def [symmetric] E_def [symmetric])
       (simp add: E_def hospital_entry_of)
  have mx: "score (E j) \<le> score (E ?i)" if "j < length hs" "choice (rng j)" for j
  proof -
    from that have "j \<in> set idx" using set_idx by simp
    then obtain m where m: "m < length idx" "idx ! m = j"
      by (auto simp: in_set_conv_nth)
    with k(3) len nth [of m] nth [of k] k(1) show ?thesis by auto
  qed
  have fst_max: "score (E j) < score (E ?i)" if "j < ?i" "choice (rng j)" for j
  proof -
    from that i1 have "j \<in> set idx" using set_idx by simp
    then obtain m where m: "m < length idx" "idx ! m = j"
      by (auto simp: in_set_conv_nth)
    have "m < k"
    proof (rule ccontr)
      assume "\<not> m < k"
      then have "k = m \<or> k < m" by auto
      then show False
      proof
        assume "k = m" with m that show False by simp
      next
        assume "k < m"
        from sorted_wrt_nth_less [OF inc this m(1)] m(2) that show False by simp
      qed
    qed
    with k(4) len nth [of m] nth [of k] k(1) m show ?thesis by auto
  qed
  show ?thesis
    using i1 i2 sel mx fst_max unfolding E_def by blast
qed

lemma available_at: "available (availability_at cfg rng j) = choice (rng j)"
  by (simp add: availability_at_def available_check)

lemma score_at_entry:
  "score_at cfg self rng j = score (entry_of self (PRESELECTED_HOSPITALS cfg ! j) (rng j))"
  by (simp add: score_at_def availability_at_def traffic_at_def rank_entry_entry_of)

lemma select_first_best:
  assumes "\<exists>j<length (PRESELECTED_HOSPITALS cfg). available (availability_at cfg rng j)"
  shows "\<exists>i<length (PRESELECTED_HOSPITALS cfg).
           available (availability_at cfg rng i)
           \<and> fst (select_optimal_hospital cfg self rng) = Inr (Some (PRESELECTED_HOSPITALS cfg ! i))
           \<and> (\<forall>j<length (PRESELECTED_HOSPITALS cfg). available (availability_at cfg rng j)
                 \<longrightarrow> score_at cfg self rng j \<le> score_at cfg self rng i)
           \<and> (\<forall>j<i. available (availability_at cfg rng j)
                 \<longrightarrow> score_at cfg self rng j < score_at cfg self rng i)"
  using select_first_max [OF _ refl, of cfg rng self] assms
  by (simp add: available_at score_at_entry)

lemma no_candidate_gives_none:
  assumes "\<forall>j<length (PRESELECTED_HOSPITALS cfg). \<not> available (availability_at cfg rng j)"
  shows "fst (select_optimal_hospital cfg self rng) = Inr None"
proof -
  have "filter (\<lambda>j. choice (rng j)) [0..<length (PRESELECTED_HOSPITALS cfg)] = []"
    using assms by (simp add: available_at filter_empty_conv)
  then show ?thesis
    by (simp add: select_optimal_hospital_eq Let_def)
qed

lemma select_calls:
  "snd (select_optimal_hospital cfg self rng) =
     concat (map (\<lambda>h. [CheckAvailability h, AnalyzeTraffic h]) (PRESELECTED_HOSPITALS cfg))"
  by (simp add: select_optimal_hospital_eq Let_def)

lemma select_no_error: "fst (select_optimal_hospital cfg self rng) \<noteq> Inl e"
  by (simp add: select_optimal_hospital_eq Let_def)

lemma select_first_accepts:
  "select_optimal_hospital Config_source self first_accepts =
     (Inr (Some hosp_a),
      [CheckAvailability hosp_a, AnalyzeTraffic hosp_a,
       CheckAvailability hosp_b, AnalyzeTraffic hosp_b])"
proof -
  show ?thesis
    by (simp add: select_optimal_hospital_eq Config_source_def sorted_reverse_def
        hospital_entry_of first_accepts_def)
qed

section \<open>Facts about scores and travel times\<close>

lemma py_int_nonneg: "0 \<le> x \<Longrightarrow> 0 \<le> py_int x"
  by (simp add: py_int_def)

lemma travel_time_nonneg:
  assumes "valid_draw d"
  shows "0 \<le> travel_time (analyze_traffic self h d)"
proof -
  let ?a = "libm_pow d
              (fmul (fsub (lat (coordinates h)) (lat (patient_coordinates self))) 111) 2"
  let ?b = "libm_pow d
              (fmul (fsub (lon (coordinates h)) (lon (patient_coordinates self))) 85) 2"
  from assms have sq: "0 \<le> ?a" "0 \<le> ?b"
    and root: "\<And>x. 0 \<le> x \<Longrightarrow> 0 \<le> libm_pow d x (1 / 2)"
    and u: "0 \<le> uniform d"
    by (simp_all add: valid_draw_def)
  have "0 \<le> fadd ?a ?b"
    unfolding fadd_def using sq by (intro round_double_nonneg) simp
  then have "0 \<le> libm_pow d (fadd ?a ?b) (1 / 2)"
    by (rule root)
  then have "0 \<le> fmul (libm_pow d (fadd ?a ?b) (1 / 2)) (uniform d)"
    unfolding fmul_def using u by (intro round_double_nonneg) simp
  then show ?thesis
    by (simp add: analyze_traffic_def Let_def py_int_nonneg)
qed

lemma weighted_bounds:
  fixes t w :: int
  assumes "1 \<le> t" and "1 \<le> w" and "w \<le> 60"
  shows "0 < fadd (fmul (round_double 0.7) (round_double (1 / real_of_int t)))
                  (fmul (round_double 0.3) (round_double (1 / real_of_int w)))"
    and "fadd (fmul (round_double 0.7) (round_double (1 / real_of_int t)))
              (fmul (round_double 0.3) (round_double (1 / real_of_int w))) \<le> 1"
proof -
  let ?a = "round_double (1 / real_of_int t)"
  let ?b = "round_double (1 / real_of_int w)"
  let ?c7 = "3152519739159347 / 4503599627370496 :: real"
  let ?c3 = "5404319552844595 / 18014398509481984 :: real"
  let ?p = "fmul ?c7 ?a"
  let ?q = "fmul ?c3 ?b"
  have one: "(1::real) = real_of_int 1 * 2 powi 0"
    by simp
  have c7: "?c7 = real_of_int 3152519739159347 * 2 powi (- 52)"
    by simp
  have c3: "?c3 = real_of_int 5404319552844595 * 2 powi (- 54)"
    by simp
  have a0: "0 \<le> ?a"
    using assms(1) by (intro round_double_nonneg) simp
  have "?a \<le> real_of_int 1 * 2 powi 0"
    using assms(1) by (intro round_double_le) simp_all
  then have a1: "?a \<le> 1"
    by simp
  have b0: "0 \<le> ?b"
    using assms(2) by (intro round_double_nonneg) simp
  have "?b \<le> real_of_int 1 * 2 powi 0"
    using assms(2) by (intro round_double_le) simp_all
  then have b1: "?b \<le> 1"
    by simp
  have "1 / 64 \<le> 1 / real_of_int w"
    using assms(2,3) by (simp add: field_simps)
  then have "2 powi (- 6) \<le> 1 / real_of_int w"
    by simp
  then have "2 powi (- 6) \<le> ?b"
    by (rule round_double_ge_power) simp
  then have b6: "1 / 64 \<le> ?b"
    by simp
  have p0: "0 \<le> ?p"
    unfolding fmul_def using a0 by (intro round_double_nonneg) simp
  have "?c7 * ?a \<le> ?c7"
    using a1 by simp
  then have "?p \<le> real_of_int 3152519739159347 * 2 powi (- 52)"
    unfolding fmul_def using a0 by (intro round_double_le) simp_all
  then have p1: "?p \<le> ?c7"
    by simp
  have "?c3 * ?b \<le> ?c3"
    using b1 by simp
  then have "?q \<le> real_of_int 5404319552844595 * 2 powi (- 54)"
    unfolding fmul_def using b0 by (intro round_double_le) simp_all
  then have q1: "?q \<le> ?c3"
    by simp
  have "2 powi (- 8) \<le> ?c3 * ?b"
    using b6 by simp
  then have "2 powi (- 8) \<le> ?q"
    unfolding fmul_def by (rule round_double_ge_power) simp
  then have q8: "1 / 256 \<le> ?q"
    by simp
  have "2 powi (- 8) \<le> ?p + ?q"
    using p0 q8 by simp
  then have "2 powi (- 8) \<le> fadd ?p ?q"
    unfolding fadd_def by (rule round_double_ge_power) simp
  then have lower: "0 < fadd ?p ?q"
    by simp
  have "?p + ?q \<le> real_of_int 1 * 2 powi 0"
    using p1 q1 by simp
  then have "fadd ?p ?q \<le> real_of_int 1 * 2 powi 0"
    unfolding fadd_def using p0 q8 by (intro round_double_le) simp_all
  then have upper: "fadd ?p ?q \<le> 1"
    by simp
  show "0 < fadd (fmul (round_double 0.7) (round_double (1 / real_of_int t)))
                  (fmul (round_double 0.3) (round_double (1 / real_of_int w)))"
    using lower by (simp only: double_0_7 double_0_3)
  show "fadd (fmul (round_double 0.7) (round_double (1 / real_of_int t)))
              (fmul (round_double 0.3) (round_double (1 / real_of_int w))) \<le> 1"
    using upper by (simp only: double_0_7 double_0_3)
qed

lemma denominators_ge_1:
  assumes "valid_draw d"
  shows "1 \<le> fst (denominators (check_hospital_availability h d) (analyze_traffic self h d))"
    and "1 \<le> snd (denominators (check_hospital_availability h d) (analyze_traffic self h d))"
    and "snd (denominators (check_hospital_availability h d) (analyze_traffic self h d)) \<le> 60"
proof -
  show "1 \<le> fst (denominators (check_hospital_availability h d) (analyze_traffic self h d))"
    using travel_time_nonneg [OF assms, of self h]
    by (simp add: denominators_def Let_def)
  show "1 \<le> snd (denominators (check_hospital_availability h d) (analyze_traffic self h d))"
    using assms
    by (simp add: denominators_def Let_def check_hospital_availability_def valid_draw_def)
  show "snd (denominators (check_hospital_availability h d) (analyze_traffic self h d)) \<le> 60"
    using assms
    by (simp add: denominators_def Let_def check_hospital_availability_def valid_draw_def)
qed

lemma entry_of_bounds:
  assumes "valid_draw d"
  shows "1 \<le> ranked_travel_time (entry_of self h d)
         \<and> 0 < score (entry_of self h d) \<and> score (entry_of self h d) \<le> 1"
proof -
  obtain t w where tw:
    "denominators (check_hospital_availability h d) (analyze_traffic self h d) = (t, w)"
    by (cases "denominators (check_hospital_availability h d) (analyze_traffic self h d)")
  from denominators_ge_1 [OF assms, of h self] have "1 \<le> t" "1 \<le> w" "w \<le> 60"
    by (simp_all add: tw)
  then show ?thesis
    using weighted_bounds [of t w] by (simp add: entry_of_def tw)
qed

lemma valid_rounded_pow:
  assumes "5 \<le> randint d" and "randint d \<le> 60" and "2 \<le> uniform d" and "uniform d \<le> 5"
    and "libm_pow d = rounded_pow"
  shows "valid_draw d"
proof -
  have "0 \<le> rounded_pow x 2" for x
    unfolding rounded_pow_def by (intro round_double_nonneg) simp
  moreover have "0 \<le> rounded_pow x (1 / 2)" if "0 \<le> x" for x
    unfolding rounded_pow_def using that by (intro round_double_nonneg) simp
  ultimately show ?thesis
    using assms by (simp add: valid_draw_def)
qed

lemma score_at_reports:
  assumes "wait_time (availability_at cfg rng j) = w"
    and "travel_time (traffic_at cfg self rng j) = t"
    and "t \<noteq> 0" and "w \<noteq> 0" and "weighted_score t w = Inr s"
  shows "score_at cfg self rng j = s"
  using assms by (simp add: score_at_def rank_entry_def denominators_def)

section \<open>Scores and travel times of the sample runs\<close>

lemma weighted_score_10_10: "weighted_score 10 10 = Inr (7205759403792793 / 72057594037927936)"
proof -
  have a: "round_double (1 / 10) = 3602879701896397 / 36028797018963968"
    by (subst round_double_eval [where k = "- 4"]) (simp_all add: round_half_even_def)
  have b: "round_double (1 / 10) = 3602879701896397 / 36028797018963968"
    by (subst round_double_eval [where k = "- 4"]) (simp_all add: round_half_even_def)
  have p: "fmul (3152519739159347 / 4503599627370496) (3602879701896397 / 36028797018963968)
             = 5044031582654955 / 72057594037927936"
    unfolding fmul_def
    by (subst round_double_eval [where k = "- 4"]) (simp_all add: round_half_even_def)
  have q: "fmul (5404319552844595 / 18014398509481984) (3602879701896397 / 36028797018963968)
             = 1080863910568919 / 36028797018963968"
    unfolding fmul_def
    by (subst round_double_eval [where k = "- 6"]) (simp_all add: round_half_even_def)
  have s: "fadd (5044031582654955 / 72057594037927936) (1080863910568919 / 36028797018963968)
             = 7205759403792793 / 72057594037927936"
    unfolding fadd_def
    by (subst round_double_eval [where k = "- 4"]) (simp_all add: round_half_even_def)
  show ?thesis
    by (simp add: weighted_score_def true_div_def a b double_0_7 double_0_3 p q s)
qed

lemma weighted_score_5_40: "weighted_score 5 40 = Inr (5314247560297185 / 36028797018963968)"
proof -
  have a: "round_double (1 / 5) = 3602879701896397 / 18014398509481984"
    by (subst round_double_eval [where k = "- 3"]) (simp_all add: round_half_even_def)
  have b: "round_double (1 / 40) = 3602879701896397 / 144115188075855872"
    by (subst round_double_eval [where k = "- 6"]) (simp_all add: round_half_even_def)
  have p: "fmul (3152519739159347 / 4503599627370496) (3602879701896397 / 18014398509481984)
             = 5044031582654955 / 36028797018963968"
    unfolding fmul_def
    by (subst round_double_eval [where k = "- 3"]) (simp_all add: round_half_even_def)
  have q: "fmul (5404319552844595 / 18014398509481984) (3602879701896397 / 144115188075855872)
             = 1080863910568919 / 144115188075855872"
    unfolding fmul_def
    by (subst round_double_eval [where k = "- 8"]) (simp_all add: round_half_even_def)
  have s: "fadd (5044031582654955 / 36028797018963968) (1080863910568919 / 144115188075855872)
             = 5314247560297185 / 36028797018963968"
    unfolding fadd_def
    by (subst round_double_eval [where k = "- 3"]) (simp_all add: round_half_even_def)
  show ?thesis
    by (simp add: weighted_score_def true_div_def a b double_0_7 double_0_3 p q s)
qed

lemma weighted_score_5_10: "weighted_score 5 10 = Inr (3062447746611937 / 18014398509481984)"
proof -
  have a: "round_double (1 / 5) = 3602879701896397 / 18014398509481984"
    by (subst round_double_eval [where k = "- 3"]) (simp_all add: round_half_even_def)
  have b: "round_double (1 / 10) = 3602879701896397 / 36028797018963968"
    by (subst round_double_eval [where k = "- 4"]) (simp_all add: round_half_even_def)
  have p: "fmul (3152519739159347 / 4503599627370496) (3602879701896397 / 18014398509481984)
             = 5044031582654955 / 36028797018963968"
    unfolding fmul_def
    by (subst round_double_eval [where k = "- 3"]) (simp_all add: round_half_even_def)
  have q: "fmul (5404319552844595 / 18014398509481984) (3602879701896397 / 36028797018963968)
             = 1080863910568919 / 36028797018963968"
    unfolding fmul_def
    by (subst round_double_eval [where k = "- 6"]) (simp_all add: round_half_even_def)
  have s: "fadd (5044031582654955 / 36028797018963968) (1080863910568919 / 36028797018963968)
             = 3062447746611937 / 18014398509481984"
    unfolding fadd_def
    by (subst round_double_eval [where k = "- 3"]) (simp_all add: round_half_even_def)
  show ?thesis
    by (simp add: weighted_score_def true_div_def a b double_0_7 double_0_3 p q s)
qed

lemma weighted_score_1_5: "weighted_score 1 5 = Inr (3422735716801577 / 4503599627370496)"
proof -
  have a: "round_double 1 = 1"
    by (subst round_double_eval [where k = "0"]) (simp_all add: round_half_even_def)
  have b: "round_double (1 / 5) = 3602879701896397 / 18014398509481984"
    by (subst round_double_eval [where k = "- 3"]) (simp_all add: round_half_even_def)
  have p: "fmul (3152519739159347 / 4503599627370496) 1
             = 3152519739159347 / 4503599627370496"
    unfolding fmul_def
    by (subst round_double_eval [where k = "- 1"]) (simp_all add: round_half_even_def)
  have q: "fmul (5404319552844595 / 18014398509481984) (3602879701896397 / 18014398509481984)
             = 1080863910568919 / 18014398509481984"
    unfolding fmul_def
    by (subst round_double_eval [where k = "- 5"]) (simp_all add: round_half_even_def)
  have s: "fadd (3152519739159347 / 4503599627370496) (1080863910568919 / 18014398509481984)
             = 3422735716801577 / 4503599627370496"
    unfolding fadd_def
    by (subst round_double_eval [where k = "- 1"]) (simp_all add: round_half_even_def)
  show ?thesis
    by (simp add: weighted_score_def true_div_def a b double_0_7 double_0_3 p q s)
qed

lemma weighted_score_6_36: "weighted_score 6 36 = Inr (9007199254740991 / 72057594037927936)"
proof -
  have a: "round_double (1 / 6) = 6004799503160661 / 36028797018963968"
    by (subst round_double_eval [where k = "- 3"]) (simp_all add: round_half_even_def)
  have b: "round_double (1 / 36) = 2001599834386887 / 72057594037927936"
    by (subst round_double_eval [where k = "- 6"]) (simp_all add: round_half_even_def)
  have p: "fmul (3152519739159347 / 4503599627370496) (6004799503160661 / 36028797018963968)
             = 8406719304424925 / 72057594037927936"
    unfolding fmul_def
    by (subst round_double_eval [where k = "- 4"]) (simp_all add: round_half_even_def)
  have q: "fmul (5404319552844595 / 18014398509481984) (2001599834386887 / 72057594037927936)
             = 4803839602528529 / 576460752303423488"
    unfolding fmul_def
    by (subst round_double_eval [where k = "- 7"]) (simp_all add: round_half_even_def)
  have s: "fadd (8406719304424925 / 72057594037927936) (4803839602528529 / 576460752303423488)
             = 9007199254740991 / 72057594037927936"
    unfolding fadd_def
    by (subst round_double_eval [where k = "- 4"]) (simp_all add: round_half_even_def)
  show ?thesis
    by (simp add: weighted_score_def true_div_def a b double_0_7 double_0_3 p q s)
qed

lemma weighted_score_8_8: "weighted_score 8 8 = Inr (1 / 8)"
proof -
  have a: "round_double (1 / 8) = 1 / 8"
    by (subst round_double_eval [where k = "- 3"]) (simp_all add: round_half_even_def)
  have b: "round_double (1 / 8) = 1 / 8"
    by (subst round_double_eval [where k = "- 3"]) (simp_all add: round_half_even_def)
  have p: "fmul (3152519739159347 / 4503599627370496) (1 / 8)
             = 3152519739159347 / 36028797018963968"
    unfolding fmul_def
    by (subst round_double_eval [where k = "- 4"]) (simp_all add: round_half_even_def)
  have q: "fmul (5404319552844595 / 18014398509481984) (1 / 8)
             = 5404319552844595 / 144115188075855872"
    unfolding fmul_def
    by (subst round_double_eval [where k = "- 5"]) (simp_all add: round_half_even_def)
  have s: "fadd (3152519739159347 / 36028797018963968) (5404319552844595 / 144115188075855872)
             = 1 / 8"
    unfolding fadd_def
    by (subst round_double_eval [where k = "- 4"]) (simp_all add: round_half_even_def)
  show ?thesis
    by (simp add: weighted_score_def true_div_def a b double_0_7 double_0_3 p q s)
qed

lemma weighted_score_1_1: "weighted_score 1 1 = Inr 1"
proof -
  have a: "round_double 1 = 1"
    by (subst round_double_eval [where k = "0"]) (simp_all add: round_half_even_def)
  have b: "round_double 1 = 1"
    by (subst round_double_eval [where k = "0"]) (simp_all add: round_half_even_def)
  have p: "fmul (3152519739159347 / 4503599627370496) 1
             = 3152519739159347 / 4503599627370496"
    unfolding fmul_def
    by (subst round_double_eval [where k = "- 1"]) (simp_all add: round_half_even_def)
  have q: "fmul (5404319552844595 / 18014398509481984) 1
             = 5404319552844595 / 18014398509481984"
    unfolding fmul_def
    by (subst round_double_eval [where k = "- 2"]) (simp_all add: round_half_even_def)
  have s: "fadd (3152519739159347 / 4503599627370496) (5404319552844595 / 18014398509481984)
             = 1"
    unfolding fadd_def
    by (subst round_double_eval [where k = "- 1"]) (simp_all add: round_half_even_def)
  show ?thesis
    by (simp add: weighted_score_def true_div_def a b double_0_7 double_0_3 p q s)
qed

lemma sqrt_12321_1024: "sqrt (12321 / 1024) = 111 / 32"
  by (rule real_sqrt_unique) (simp_all add: power2_eq_square)

lemma sqrt_12321_4096: "sqrt (12321 / 4096) = 111 / 64"
  by (rule real_sqrt_unique) (simp_all add: power2_eq_square)

lemma distance_far:
  assumes "libm_pow d = rounded_pow" and "coordinates h = \<lparr>lat = 1 / 32, lon = 0\<rparr>"
  shows "travel_time (analyze_traffic at_origin h d) = py_int (fmul (111 / 32) (uniform d))"
proof -
  have 1: "fsub (1 / 32) 0 = 1 / 32"
    unfolding fsub_def
    by (subst round_double_eval [where k = "- 5"]) (simp_all add: round_half_even_def)
  have 2: "fmul (1 / 32) 111 = 111 / 32"
    unfolding fmul_def
    by (subst round_double_eval [where k = "1"]) (simp_all add: round_half_even_def)
  have 3: "rounded_pow (111 / 32) 2 = 12321 / 1024"
    unfolding rounded_pow_def
    by (subst round_double_eval [where k = "3"]) (simp_all add: round_half_even_def)
  have 4: "fadd (12321 / 1024) 0 = 12321 / 1024"
    unfolding fadd_def
    by (subst round_double_eval [where k = "3"]) (simp_all add: round_half_even_def)
  have 5: "rounded_pow (12321 / 1024) (1 / 2) = 111 / 32"
    unfolding rounded_pow_def
    by (subst round_double_eval [where k = "1"])
       (simp_all add: round_half_even_def sqrt_12321_1024)
  have 0: "fsub 0 0 = 0" "fmul 0 85 = 0" "rounded_pow 0 2 = 0"
    by (simp_all add: fsub_def fmul_def rounded_pow_def)
  show ?thesis
    by (simp add: analyze_traffic_def Let_def assms at_origin_def 0 1 2 3 4 5)
qed

lemma distance_near:
  assumes "libm_pow d = rounded_pow" and "coordinates h = \<lparr>lat = 1 / 64, lon = 0\<rparr>"
  shows "travel_time (analyze_traffic at_origin h d) = py_int (fmul (111 / 64) (uniform d))"
proof -
  have 1: "fsub (1 / 64) 0 = 1 / 64"
    unfolding fsub_def
    by (subst round_double_eval [where k = "- 6"]) (simp_all add: round_half_even_def)
  have 2: "fmul (1 / 64) 111 = 111 / 64"
    unfolding fmul_def
    by (subst round_double_eval [where k = "0"]) (simp_all add: round_half_even_def)
  have 3: "rounded_pow (111 / 64) 2 = 12321 / 4096"
    unfolding rounded_pow_def
    by (subst round_double_eval [where k = "1"]) (simp_all add: round_half_even_def)
  have 4: "fadd (12321 / 4096) 0 = 12321 / 4096"
    unfolding fadd_def
    by (subst round_double_eval [where k = "1"]) (simp_all add: round_half_even_def)
  have 5: "rounded_pow (12321 / 4096) (1 / 2) = 111 / 64"
    unfolding rounded_pow_def
    by (subst round_double_eval [where k = "0"])
       (simp_all add: round_half_even_def sqrt_12321_4096)
  have 0: "fsub 0 0 = 0" "fmul 0 85 = 0" "rounded_pow 0 2 = 0"
    by (simp_all add: fsub_def fmul_def rounded_pow_def)
  show ?thesis
    by (simp add: analyze_traffic_def Let_def assms at_origin_def 0 1 2 3 4 5)
qed

lemma distance_here:
  assumes "libm_pow d = rounded_pow"
  shows "travel_time (analyze_traffic at_origin here d) = 0"
  by (simp add: analyze_traffic_def Let_def assms at_origin_def here_def fsub_def fmul_def
      fadd_def rounded_pow_def py_int_def)

lemma travel_far_3: "py_int (fmul (111 / 32) 3) = 10"
  unfolding fmul_def
  by (subst round_double_eval [where k = "3"]) (simp_all add: round_half_even_def py_int_def)

lemma travel_far_2: "py_int (fmul (111 / 32) 2) = 6"
  unfolding fmul_def
  by (subst round_double_eval [where k = "2"]) (simp_all add: round_half_even_def py_int_def)

lemma travel_far_5_2: "py_int (fmul (111 / 32) (5 / 2)) = 8"
  unfolding fmul_def
  by (subst round_double_eval [where k = "3"]) (simp_all add: round_half_even_def py_int_def)

lemma travel_near_3: "py_int (fmul (111 / 64) 3) = 5"
  unfolding fmul_def
  by (subst round_double_eval [where k = "2"]) (simp_all add: round_half_even_def py_int_def)

lemma reports_far_near:
  "availability_at Config_far_near waits_10_40 0 = \<lparr>available = True, wait_time = 10\<rparr>"
  "travel_time (traffic_at Config_far_near at_origin waits_10_40 0) = 10"
  "availability_at Config_far_near waits_10_40 1 = \<lparr>available = True, wait_time = 40\<rparr>"
  "travel_time (traffic_at Config_far_near at_origin waits_10_40 1) = 5"
  by (simp_all add: availability_at_def traffic_at_def check_hospital_availability_def
      Config_far_near_def waits_10_40_def distance_far distance_near far_def near_def
      travel_far_3 travel_near_3)

lemma reports_twins:
  "availability_at Config_twins same_draws 0 = \<lparr>available = True, wait_time = 10\<rparr>"
  "travel_time (traffic_at Config_twins at_origin same_draws 0) = 5"
  "availability_at Config_twins same_draws 1 = \<lparr>available = True, wait_time = 10\<rparr>"
  "travel_time (traffic_at Config_twins at_origin same_draws 1) = 5"
  by (simp_all add: availability_at_def traffic_at_def check_hospital_availability_def
      Config_twins_def same_draws_def distance_near near_def twin_def travel_near_3)

lemma score_twins:
  "score_at Config_twins at_origin same_draws 0 = 3062447746611937 / 18014398509481984"
  "score_at Config_twins at_origin same_draws 1 = 3062447746611937 / 18014398509481984"
proof -
  show "score_at Config_twins at_origin same_draws 0 = 3062447746611937 / 18014398509481984"
    by (rule score_at_reports [where t = 5 and w = 10])
       (use reports_twins in \<open>simp_all add: weighted_score_5_10\<close>)
  show "score_at Config_twins at_origin same_draws 1 = 3062447746611937 / 18014398509481984"
    by (rule score_at_reports [where t = 5 and w = 10])
       (use reports_twins in \<open>simp_all add: weighted_score_5_10\<close>)
qed

lemma reports_near_tie:
  "availability_at Config_near_tie near_tie_draws 0 = \<lparr>available = True, wait_time = 36\<rparr>"
  "travel_time (traffic_at Config_near_tie at_origin near_tie_draws 0) = 6"
  "availability_at Config_near_tie near_tie_draws 1 = \<lparr>available = True, wait_time = 8\<rparr>"
  "travel_time (traffic_at Config_near_tie at_origin near_tie_draws 1) = 8"
  by (simp_all add: availability_at_def traffic_at_def check_hospital_availability_def
      Config_near_tie_def near_tie_draws_def distance_far far_def far2_def
      travel_far_2 travel_far_5_2)

lemma scores_near_tie:
  "score_at Config_near_tie at_origin near_tie_draws 0 = 9007199254740991 / 72057594037927936"
  "score_at Config_near_tie at_origin near_tie_draws 1 = 1 / 8"
proof -
  show "score_at Config_near_tie at_origin near_tie_draws 0
          = 9007199254740991 / 72057594037927936"
    by (rule score_at_reports [where t = 6 and w = 36])
       (use reports_near_tie in \<open>simp_all add: weighted_score_6_36\<close>)
  show "score_at Config_near_tie at_origin near_tie_draws 1 = 1 / 8"
    by (rule score_at_reports [where t = 8 and w = 8])
       (use reports_near_tie in \<open>simp_all add: weighted_score_8_8\<close>)
qed

lemma run_here_near:
  "rank_hospitals at_origin waits_5_40 0 (PRESELECTED_HOSPITALS Config_here_near) ([], []) =
     (Inr [\<lparr>hospital = here, ranked_travel_time = 1,
            score = 3422735716801577 / 4503599627370496\<rparr>,
           \<lparr>hospital = near, ranked_travel_time = 5,
            score = 5314247560297185 / 36028797018963968\<rparr>],
      [CheckAvailability here, AnalyzeTraffic here, CheckAvailability near, AnalyzeTraffic near])"
  by (simp add: Config_here_near_def Let_def available_check rank_entry_def denominators_def
      distance_here distance_near near_def travel_near_3 check_hospital_availability_def
      waits_5_40_def weighted_score_1_5 weighted_score_5_40)

section \<open>Selection\<close>

text \<open>
  C1 (amended). Let the hospital at position \<open>a\<close> be available with travel time 10 and
  waiting time 10, the hospital at position \<open>b\<close> be available with travel time 5 and waiting
  time 40, and no other hospital of the list be available; the two may come in either order.
  Then the loop gives A the score 7205759403792793 / 2^56, which is the double printed as
  0.09999999999999999, and gives B the double nearest to 0.1475, and the selection returns B,
  the candidate with the larger score. Both scores are the values of
  0.7 * (1/travel_time) + 0.3 * (1/wait_time) in double arithmetic.
\<close>

theorem select_worked_example:
  assumes "a < length (PRESELECTED_HOSPITALS cfg)" and "b < length (PRESELECTED_HOSPITALS cfg)"
    and "\<forall>j<length (PRESELECTED_HOSPITALS cfg).
           available (availability_at cfg rng j) \<longrightarrow> j = a \<or> j = b"
    and "availability_at cfg rng a = \<lparr>available = True, wait_time = 10\<rparr>"
    and "travel_time (traffic_at cfg self rng a) = 10"
    and "availability_at cfg rng b = \<lparr>available = True, wait_time = 40\<rparr>"
    and "travel_time (traffic_at cfg self rng b) = 5"
  shows "score_at cfg self rng a = 7205759403792793 / 72057594037927936
         \<and> score_at cfg self rng b = round_double 0.1475
         \<and> fst (select_optimal_hospital cfg self rng) = Inr (Some (PRESELECTED_HOSPITALS cfg ! b))"
proof -
  let ?sc = "score_at cfg self rng"
  have sa: "?sc a = 7205759403792793 / 72057594037927936"
    by (rule score_at_reports [where t = 10 and w = 10])
       (simp_all add: assms(4,5) weighted_score_10_10)
  have sb: "?sc b = 5314247560297185 / 36028797018963968"
    by (rule score_at_reports [where t = 5 and w = 40])
       (simp_all add: assms(6,7) weighted_score_5_40)
  have avb: "available (availability_at cfg rng b)"
    using assms(6) by simp
  then have "\<exists>j<length (PRESELECTED_HOSPITALS cfg). available (availability_at cfg rng j)"
    using assms(2) by blast
  from select_first_best [OF this, of self]
  obtain k where k: "k < length (PRESELECTED_HOSPITALS cfg)"
    "available (availability_at cfg rng k)"
    "fst (select_optimal_hospital cfg self rng) = Inr (Some (PRESELECTED_HOSPITALS cfg ! k))"
    "\<forall>j<length (PRESELECTED_HOSPITALS cfg).
       available (availability_at cfg rng j) \<longrightarrow> ?sc j \<le> ?sc k"
    by blast
  from assms(3) k(1,2) have "k = a \<or> k = b"
    by blast
  moreover have "?sc k \<noteq> ?sc a"
  proof
    assume "?sc k = ?sc a"
    moreover from k(4) assms(2) avb have "?sc b \<le> ?sc k" by blast
    ultimately show False using sa sb by simp
  qed
  ultimately have "k = b"
    by blast
  with k(3) have "fst (select_optimal_hospital cfg self rng)
                    = Inr (Some (PRESELECTED_HOSPITALS cfg ! b))"
    by simp
  with sa sb show ?thesis
    unfolding double_0_1475 by (intro conjI)
qed

theorem select_worked_example_witness:
  "score_at Config_far_near at_origin waits_10_40 0 = 7205759403792793 / 72057594037927936
   \<and> score_at Config_far_near at_origin waits_10_40 1 = round_double 0.1475
   \<and> fst (select_optimal_hospital Config_far_near at_origin waits_10_40) = Inr (Some near)"
proof -
  have hs: "PRESELECTED_HOSPITALS Config_far_near = [far, near]"
    by (simp add: Config_far_near_def)
  have la: "0 < length (PRESELECTED_HOSPITALS Config_far_near)"
    and lb: "1 < length (PRESELECTED_HOSPITALS Config_far_near)"
    by (simp_all add: hs)
  have only: "\<forall>j<length (PRESELECTED_HOSPITALS Config_far_near).
                available (availability_at Config_far_near waits_10_40 j) \<longrightarrow> j = 0 \<or> j = 1"
    by (auto simp: hs)
  from select_worked_example
    [OF la lb only reports_far_near(1) reports_far_near(2) reports_far_near(3)
        reports_far_near(4)]
  show ?thesis
    by (simp add: hs)
qed

text \<open>
  The score of a hospital with travel time 10 and waiting time 10 is not 0.10: it is neither
  the number 1/10 nor the double nearest to it, since the two products and the sum are each
  rounded.
\<close>

theorem score_of_A_is_not_one_tenth:
  "availability_at Config_far_near waits_10_40 0 = \<lparr>available = True, wait_time = 10\<rparr>
   \<and> travel_time (traffic_at Config_far_near at_origin waits_10_40 0) = 10
   \<and> score_at Config_far_near at_origin waits_10_40 0 \<noteq> 0.10
   \<and> score_at Config_far_near at_origin waits_10_40 0 \<noteq> round_double 0.10"
proof -
  have sc: "score_at Config_far_near at_origin waits_10_40 0
          = 7205759403792793 / 72057594037927936"
    by (rule score_at_reports [where t = 10 and w = 10])
       (simp_all add: reports_far_near weighted_score_10_10)
  show ?thesis
    unfolding sc double_0_10 by (simp add: reports_far_near)
qed

text \<open>
  C2. Ties go to the hospital seen first. If the available hospital at position \<open>i\<close> has a
  score that no available hospital exceeds, and no available hospital before \<open>i\<close> has the same
  score, then the selection returns the hospital at position \<open>i\<close>, however many later
  hospitals reach the same score. The scores compared are the doubles the loop computes, so
  two hospitals tie when these doubles are equal.
\<close>

theorem select_tie_first_wins:
  assumes "i < length (PRESELECTED_HOSPITALS cfg)"
    and "available (availability_at cfg rng i)"
    and "\<forall>j<length (PRESELECTED_HOSPITALS cfg). available (availability_at cfg rng j)
           \<longrightarrow> score_at cfg self rng j \<le> score_at cfg self rng i"
    and "\<forall>j<i. available (availability_at cfg rng j)
           \<longrightarrow> score_at cfg self rng j \<noteq> score_at cfg self rng i"
  shows "fst (select_optimal_hospital cfg self rng) = Inr (Some (PRESELECTED_HOSPITALS cfg ! i))"
proof -
  let ?hs = "PRESELECTED_HOSPITALS cfg"
  let ?av = "\<lambda>j. available (availability_at cfg rng j)"
  let ?sc = "score_at cfg self rng"
  from assms(1,2) have "\<exists>j<length ?hs. ?av j" by blast
  from select_first_best [OF this, of self]
  obtain k where k: "k < length ?hs" "?av k"
    "fst (select_optimal_hospital cfg self rng) = Inr (Some (?hs ! k))"
    "\<forall>j<length ?hs. ?av j \<longrightarrow> ?sc j \<le> ?sc k" "\<forall>j<k. ?av j \<longrightarrow> ?sc j < ?sc k"
    by blast
  have "k = i"
  proof (rule ccontr)
    assume "k \<noteq> i"
    then consider "k < i" | "i < k" by linarith
    then show False
    proof cases
      case 1
      from k(4) assms(1,2) have "?sc i \<le> ?sc k" by blast
      moreover from assms(3) k(1,2) have "?sc k \<le> ?sc i" by blast
      moreover from assms(4) 1 k(2) have "?sc k \<noteq> ?sc i" by blast
      ultimately show False by simp
    next
      case 2
      from k(5) 2 assms(2) have "?sc i < ?sc k" by blast
      moreover from assms(3) k(1,2) have "?sc k \<le> ?sc i" by blast
      ultimately show False by simp
    qed
  qed
  with k(3) show ?thesis by simp
qed

theorem select_tie_first_wins_witness:
  "score_at Config_twins at_origin same_draws 0 = score_at Config_twins at_origin same_draws 1
   \<and> near \<noteq> twin
   \<and> fst (select_optimal_hospital Config_twins at_origin same_draws) = Inr (Some near)
   \<and> score_at Config_near_tie at_origin near_tie_draws 0
       < score_at Config_near_tie at_origin near_tie_draws 1
   \<and> fst (select_optimal_hospital Config_near_tie at_origin near_tie_draws) = Inr (Some far2)"
proof -
  have len: "length (PRESELECTED_HOSPITALS Config_twins) = 2"
    by (simp add: Config_twins_def)
  have av: "available (availability_at Config_twins same_draws 0)"
    unfolding reports_twins by simp
  have mx: "\<forall>j<length (PRESELECTED_HOSPITALS Config_twins).
              available (availability_at Config_twins same_draws j)
              \<longrightarrow> score_at Config_twins at_origin same_draws j
                    \<le> score_at Config_twins at_origin same_draws 0"
    unfolding len using score_twins by (auto simp: less_2_cases_iff)
  have "fst (select_optimal_hospital Config_twins at_origin same_draws)
          = Inr (Some (PRESELECTED_HOSPITALS Config_twins ! 0))"
    by (rule select_tie_first_wins [OF _ av mx]) (simp_all add: len)
  moreover have "PRESELECTED_HOSPITALS Config_twins ! 0 = near"
    by (simp add: Config_twins_def)
  moreover have "near \<noteq> twin"
    by (simp add: near_def twin_def)
  moreover have "score_at Config_twins at_origin same_draws 0
                   = score_at Config_twins at_origin same_draws 1"
    unfolding score_twins by (rule refl)
  moreover have len': "length (PRESELECTED_HOSPITALS Config_near_tie) = 2"
    by (simp add: Config_near_tie_def)
  moreover have lt: "score_at Config_near_tie at_origin near_tie_draws 0
                       < score_at Config_near_tie at_origin near_tie_draws 1"
    unfolding scores_near_tie by simp
  moreover have "fst (select_optimal_hospital Config_near_tie at_origin near_tie_draws)
          = Inr (Some (PRESELECTED_HOSPITALS Config_near_tie ! 1))"
  proof (rule select_tie_first_wins)
    show "1 < length (PRESELECTED_HOSPITALS Config_near_tie)"
      by (simp add: len')
    show "available (availability_at Config_near_tie near_tie_draws 1)"
      unfolding reports_near_tie by simp
    show "\<forall>j<length (PRESELECTED_HOSPITALS Config_near_tie).
            available (availability_at Config_near_tie near_tie_draws j)
            \<longrightarrow> score_at Config_near_tie at_origin near_tie_draws j
                  \<le> score_at Config_near_tie at_origin near_tie_draws 1"
      unfolding len' using scores_near_tie by (auto simp: less_2_cases_iff)
    show "\<forall>j<1. available (availability_at Config_near_tie near_tie_draws j)
            \<longrightarrow> score_at Config_near_tie at_origin near_tie_draws j
                  \<noteq> score_at Config_near_tie at_origin near_tie_draws 1"
      using scores_near_tie by simp
  qed
  moreover have "PRESELECTED_HOSPITALS Config_near_tie ! 1 = far2"
    by (simp add: Config_near_tie_def)
  ultimately show ?thesis
    by simp
qed

text \<open>
  C3. The selection returns \<^verbatim>\<open>None\<close> exactly when no hospital of the list reports itself
  available, so in particular on the empty list; when some hospital is available it returns
  a hospital of the list.
\<close>

theorem select_none_iff:
  "(fst (select_optimal_hospital cfg self rng) = Inr None
      \<longleftrightarrow> (\<forall>j<length (PRESELECTED_HOSPITALS cfg). \<not> available (availability_at cfg rng j)))
   \<and> (PRESELECTED_HOSPITALS cfg = [] \<longrightarrow> fst (select_optimal_hospital cfg self rng) = Inr None)
   \<and> ((\<exists>j<length (PRESELECTED_HOSPITALS cfg). available (availability_at cfg rng j))
        \<longrightarrow> (\<exists>h\<in>set (PRESELECTED_HOSPITALS cfg).
               fst (select_optimal_hospital cfg self rng) = Inr (Some h)))"
proof (intro conjI iffI impI)
  assume "fst (select_optimal_hospital cfg self rng) = Inr None"
  then show "\<forall>j<length (PRESELECTED_HOSPITALS cfg). \<not> available (availability_at cfg rng j)"
    using select_first_best [of cfg rng self] by force
next
  assume "\<forall>j<length (PRESELECTED_HOSPITALS cfg). \<not> available (availability_at cfg rng j)"
  then show "fst (select_optimal_hospital cfg self rng) = Inr None"
    by (rule no_candidate_gives_none)
next
  assume "PRESELECTED_HOSPITALS cfg = []"
  then show "fst (select_optimal_hospital cfg self rng) = Inr None"
    by (simp add: no_candidate_gives_none)
next
  assume "\<exists>j<length (PRESELECTED_HOSPITALS cfg). available (availability_at cfg rng j)"
  from select_first_best [OF this, of self]
  show "\<exists>h\<in>set (PRESELECTED_HOSPITALS cfg).
          fst (select_optimal_hospital cfg self rng) = Inr (Some h)"
    by (metis nth_mem)
qed

theorem select_none_iff_witness:
  "fst (select_optimal_hospital Config_source assistant none_accepts) = Inr None
   \<and> fst (select_optimal_hospital (Config_source\<lparr>PRESELECTED_HOSPITALS := []\<rparr>) assistant
            first_accepts) = Inr None
   \<and> (\<exists>h\<in>set (PRESELECTED_HOSPITALS Config_source).
         fst (select_optimal_hospital Config_source assistant first_accepts) = Inr (Some h))"
proof -
  have none: "\<forall>j<length (PRESELECTED_HOSPITALS Config_source).
                \<not> available (availability_at Config_source none_accepts j)"
    by (simp add: availability_at_def check_hospital_availability_def none_accepts_def)
  have some: "\<exists>j<length (PRESELECTED_HOSPITALS Config_source).
                available (availability_at Config_source first_accepts j)"
    by (rule exI [of _ 0])
       (simp add: availability_at_def check_hospital_availability_def first_accepts_def
          Config_source_def)
  from select_none_iff [of Config_source assistant none_accepts] none
  have 1: "fst (select_optimal_hospital Config_source assistant none_accepts) = Inr None"
    by blast
  from select_none_iff [of "Config_source\<lparr>PRESELECTED_HOSPITALS := []\<rparr>" assistant first_accepts]
  have 2: "fst (select_optimal_hospital (Config_source\<lparr>PRESELECTED_HOSPITALS := []\<rparr>) assistant
            first_accepts) = Inr None"
    by simp
  from select_none_iff [of Config_source assistant first_accepts] some
  have 3: "\<exists>h\<in>set (PRESELECTED_HOSPITALS Config_source).
         fst (select_optimal_hospital Config_source assistant first_accepts) = Inr (Some h)"
    by blast
  from 1 2 3 show ?thesis by blast
qed

text \<open>
  C4. The score never divides by zero. Whatever the availability and traffic reports are,
  both numbers the score divides by are different from 0, the loop body yields an entry and
  not a ZeroDivisionError, and the selection as a whole raises none. Reports with travel time
  0 and waiting time 0 are scored with 1 and 1; for every travel time and waiting time that
  is not negative the number used is the larger of 1 and the reported value.
\<close>

theorem no_division_by_zero:
  "fst (denominators a t) \<noteq> 0 \<and> snd (denominators a t) \<noteq> 0
   \<and> (\<exists>r. rank_entry h a t = Inr r)
   \<and> fst (select_optimal_hospital cfg self rng) \<noteq> Inl ZeroDivisionError
   \<and> denominators (a\<lparr>wait_time := 0\<rparr>) (t\<lparr>travel_time := 0\<rparr>) = (1, 1)
   \<and> (0 \<le> travel_time t \<longrightarrow> fst (denominators a t) = max 1 (travel_time t))
   \<and> (0 \<le> wait_time a \<longrightarrow> snd (denominators a t) = max 1 (wait_time a))"
proof -
  have nz: "fst (denominators a t) \<noteq> 0 \<and> snd (denominators a t) \<noteq> 0"
    by (rule denominators_nonzero)
  then have "\<exists>r. rank_entry h a t = Inr r"
    by (auto simp: rank_entry_def weighted_score_def true_div_def split: prod.splits)
  moreover have "denominators (a\<lparr>wait_time := 0\<rparr>) (t\<lparr>travel_time := 0\<rparr>) = (1, 1)"
    by (simp add: denominators_def)
  moreover have "0 \<le> travel_time t \<longrightarrow> fst (denominators a t) = max 1 (travel_time t)"
    by (simp add: denominators_def Let_def)
  moreover have "0 \<le> wait_time a \<longrightarrow> snd (denominators a t) = max 1 (wait_time a)"
    by (simp add: denominators_def Let_def)
  ultimately show ?thesis
    using nz select_no_error [of cfg self rng ZeroDivisionError] by blast
qed

theorem no_division_by_zero_witness:
  "denominators \<lparr>available = True, wait_time = 0\<rparr> \<lparr>travel_time = 0, distance_km = 0\<rparr> = (1, 1)
   \<and> rank_entry hosp_a \<lparr>available = True, wait_time = 0\<rparr> \<lparr>travel_time = 0, distance_km = 0\<rparr>
       = Inr \<lparr>hospital = hosp_a, ranked_travel_time = 1, score = 1\<rparr>"
proof -
  from no_division_by_zero
    [of "\<lparr>available = True, wait_time = 0\<rparr>" "\<lparr>travel_time = 0, distance_km = 0\<rparr>"
        hosp_a Config_source assistant first_accepts]
  have d: "denominators \<lparr>available = True, wait_time = 0\<rparr> \<lparr>travel_time = 0, distance_km = 0\<rparr>
             = (1, 1)"
    by (simp add: prod_eq_iff)
  then show ?thesis
    by (simp add: rank_entry_def weighted_score_1_1)
qed

text \<open>
  C10. In every selection run, that is for all draws that \<open>valid_draw\<close> admits, the loop
  finishes without an exception, every entry of \<^verbatim>\<open>ranked_hospitals\<close> has a travel time of at
  least 1 and a score greater than 0 and at most 1, and for every hospital both numbers the
  score divides by, the travel time and the waiting time after the guards, are at least 1.
\<close>

theorem candidate_scores_bounded:
  assumes "\<forall>j<length (PRESELECTED_HOSPITALS cfg). valid_draw (rng j)"
  shows "(\<exists>ranked cs.
            rank_hospitals self rng 0 (PRESELECTED_HOSPITALS cfg) ([], []) = (Inr ranked, cs)
            \<and> (\<forall>r\<in>set ranked. 1 \<le> ranked_travel_time r \<and> 0 < score r \<and> score r \<le> 1))
         \<and> (\<forall>j<length (PRESELECTED_HOSPITALS cfg).
               1 \<le> fst (denominators (availability_at cfg rng j) (traffic_at cfg self rng j))
               \<and> 1 \<le> snd (denominators (availability_at cfg rng j) (traffic_at cfg self rng j)))"
proof (intro conjI exI allI impI ballI)
  let ?hs = "PRESELECTED_HOSPITALS cfg"
  let ?ranked = "map (\<lambda>j. entry_of self (?hs ! j) (rng j))
                   (filter (\<lambda>j. choice (rng j)) [0..<length ?hs])"
  show "rank_hospitals self rng 0 ?hs ([], [])
          = (Inr ?ranked, concat (map (\<lambda>h. [CheckAvailability h, AnalyzeTraffic h]) ?hs))"
    by (simp add: rank_hospitals_eq)
  fix r
  assume "r \<in> set ?ranked"
  then obtain j where j: "j < length ?hs" "r = entry_of self (?hs ! j) (rng j)"
    by auto
  from assms j(1) have "valid_draw (rng j)"
    by blast
  from entry_of_bounds [OF this, of self "?hs ! j"]
  show "1 \<le> ranked_travel_time r" and "0 < score r" and "score r \<le> 1"
    unfolding j(2) by simp_all
next
  fix j
  assume "j < length (PRESELECTED_HOSPITALS cfg)"
  with assms have v: "valid_draw (rng j)"
    by blast
  show "1 \<le> fst (denominators (availability_at cfg rng j) (traffic_at cfg self rng j))"
    unfolding availability_at_def traffic_at_def by (rule denominators_ge_1(1) [OF v])
  show "1 \<le> snd (denominators (availability_at cfg rng j) (traffic_at cfg self rng j))"
    unfolding availability_at_def traffic_at_def by (rule denominators_ge_1(2) [OF v])
qed

theorem candidate_scores_bounded_witness:
  "travel_time (traffic_at Config_here_near at_origin waits_5_40 0) = 0
   \<and> denominators (availability_at Config_here_near waits_5_40 0)
        (traffic_at Config_here_near at_origin waits_5_40 0) = (1, 5)
   \<and> rank_hospitals at_origin waits_5_40 0 (PRESELECTED_HOSPITALS Config_here_near) ([], []) =
       (Inr [\<lparr>hospital = here, ranked_travel_time = 1,
              score = 3422735716801577 / 4503599627370496\<rparr>,
             \<lparr>hospital = near, ranked_travel_time = 5,
              score = 5314247560297185 / 36028797018963968\<rparr>],
        [CheckAvailability here, AnalyzeTraffic here,
         CheckAvailability near, AnalyzeTraffic near])
   \<and> 1 \<le> ranked_travel_time \<lparr>hospital = here, ranked_travel_time = 1,
                               score = 3422735716801577 / 4503599627370496\<rparr>
   \<and> 0 < score \<lparr>hospital = here, ranked_travel_time = 1,
                 score = 3422735716801577 / 4503599627370496\<rparr>
   \<and> score \<lparr>hospital = here, ranked_travel_time = 1,
             score = 3422735716801577 / 4503599627370496\<rparr> \<le> 1"
proof -
  have valid: "\<forall>j<length (PRESELECTED_HOSPITALS Config_here_near). valid_draw (waits_5_40 j)"
    by (intro allI impI valid_rounded_pow) (simp_all add: waits_5_40_def)
  have t0: "travel_time (traffic_at Config_here_near at_origin waits_5_40 0) = 0"
    by (simp add: traffic_at_def Config_here_near_def distance_here waits_5_40_def)
  have d0: "denominators (availability_at Config_here_near waits_5_40 0)
              (traffic_at Config_here_near at_origin waits_5_40 0) = (1, 5)"
    by (simp add: denominators_def t0 availability_at_def check_hospital_availability_def
        waits_5_40_def)
  from candidate_scores_bounded [OF valid, of at_origin] run_here_near
  have "1 \<le> ranked_travel_time \<lparr>hospital = here, ranked_travel_time = 1,
                               score = 3422735716801577 / 4503599627370496\<rparr>
        \<and> 0 < score \<lparr>hospital = here, ranked_travel_time = 1,
                 score = 3422735716801577 / 4503599627370496\<rparr>
        \<and> score \<lparr>hospital = here, ranked_travel_time = 1,
             score = 3422735716801577 / 4503599627370496\<rparr> \<le> 1"
    by auto
  with t0 d0 run_here_near show ?thesis
    by blast
qed

section \<open>Facts about the calls of a run\<close>

lemma notified_append: "notified (xs @ ys) = notified xs @ notified ys"
  by (induction xs rule: notified.induct) simp_all

lemma notified_map_Notify: "notified (map Notify cs) = cs"
  by (induction cs) simp_all

lemma alerted_map_Notify: "alerted (map Notify cs) = []"
  by (induction cs) simp_all

lemma selection_calls_map_Notify: "selection_calls (map Notify cs) = []"
  by (induction cs) simp_all

lemma notified_lookups:
  "notified (concat (map (\<lambda>h. [CheckAvailability h, AnalyzeTraffic h]) hs)) = []"
  by (induction hs) simp_all

lemma analyze_symptoms_empty: "analyze_symptoms [] = ([], ''moderate'')"
  by (simp add: analyze_symptoms_def lower_def)

section \<open>The protocol\<close>

text \<open>
  C8 (amended). In every run of the protocol in which the triage classifies the description
  as critical, the calls made are exactly one notification per configured emergency contact,
  in list order: no availability check, no traffic analysis and no alert to a hospital.
\<close>

theorem critical_skips_selection:
  assumes "snd (analyze_symptoms voice_input) = ''critical''"
  shows "calls (emergency_protocol cfg self voice_input auto_detected rng)
           = map Notify (EMERGENCY_CONTACTS cfg)
         \<and> notified (calls (emergency_protocol cfg self voice_input auto_detected rng))
             = EMERGENCY_CONTACTS cfg
         \<and> alerted (calls (emergency_protocol cfg self voice_input auto_detected rng)) = []
         \<and> selection_calls (calls (emergency_protocol cfg self voice_input auto_detected rng)) = []
         \<and> outcome (emergency_protocol cfg self voice_input auto_detected rng) = CriticalCondition"
proof -
  obtain summary where an: "analyze_symptoms voice_input = (summary, ''critical'')"
    using assms by (cases "analyze_symptoms voice_input") auto
  then have "voice_input \<noteq> []"
    using analyze_symptoms_empty by auto
  with an
  have run: "emergency_protocol cfg self voice_input auto_detected rng =
          \<lparr>agent = self\<lparr>current_symptoms := summary, symptom_severity := ''critical''\<rparr>,
           calls = notify_contacts cfg, outcome = CriticalCondition\<rparr>"
    by (simp add: emergency_protocol_def)
  show ?thesis
    unfolding run
    by (simp add: notify_contacts_def notified_map_Notify alerted_map_Notify
        selection_calls_map_Notify)
qed

theorem critical_skips_selection_witness:
  "calls (emergency_protocol Config_source assistant ''Chest pain in my left arm'' False
            first_accepts)
     = [Notify family_member, Notify close_friend]"
proof -
  have crit: "snd (analyze_symptoms ''Chest pain in my left arm'') = ''critical''"
    by code_simp
  from critical_skips_selection [OF crit, of Config_source assistant False first_accepts]
  show ?thesis
    by (simp add: Config_source_def)
qed

text \<open>
  The description "I feel a sharp pain in my chest and my arm is numb", with or without the
  final full stop of the simulated listener, does not contain the text "chest pain" and is
  not classified critical. A run on it visits the hospitals and, when the first one
  accepts, alerts it before the contacts are notified.
\<close>

theorem sharp_pain_runs_selection:
  "snd (analyze_symptoms ''I feel a sharp pain in my chest and my arm is numb'') \<noteq> ''critical''
   \<and> snd (analyze_symptoms listen_for_voice_command) \<noteq> ''critical''
   \<and> calls (emergency_protocol Config_source assistant
              ''I feel a sharp pain in my chest and my arm is numb'' False first_accepts)
       = [CheckAvailability hosp_a, AnalyzeTraffic hosp_a,
          CheckAvailability hosp_b, AnalyzeTraffic hosp_b,
          SendAlert hosp_a, Notify family_member, Notify close_friend]
   \<and> alerted (calls (emergency_protocol Config_source assistant
              ''I feel a sharp pain in my chest and my arm is numb'' False first_accepts))
       = [hosp_a]"
proof -
  have an: "analyze_symptoms ''I feel a sharp pain in my chest and my arm is numb''
              = (''i feel a sharp pain in my chest and my arm is numb'', ''moderate'')"
    by code_simp
  have an': "snd (analyze_symptoms listen_for_voice_command) = ''moderate''"
    unfolding listen_for_voice_command_def by code_simp
  have cts: "EMERGENCY_CONTACTS Config_source = [family_member, close_friend]"
    by (simp add: Config_source_def)
  have run: "calls (emergency_protocol Config_source assistant
              ''I feel a sharp pain in my chest and my arm is numb'' False first_accepts)
       = [CheckAvailability hosp_a, AnalyzeTraffic hosp_a,
          CheckAvailability hosp_b, AnalyzeTraffic hosp_b,
          SendAlert hosp_a, Notify family_member, Notify close_friend]"
    by (simp add: emergency_protocol_def an select_first_accepts send_emergency_alert_def
        notify_contacts_def cts Let_def)
  show ?thesis
    unfolding run using an an' by simp
qed

text \<open>
  C9. A run ends with no emergency detected exactly when the voice input is empty and the
  sensor did not trigger, and then it makes no call at all. Every other run notifies each
  configured contact once, in list order, whether it took the critical path, found no
  available hospital or alerted a hospital; and no run ends in an exception.
\<close>

theorem contacts_notified_unless_no_emergency:
  "(outcome (emergency_protocol cfg self voice_input auto_detected rng) = NoEmergencyDetected
      \<longleftrightarrow> voice_input = [] \<and> \<not> auto_detected)
   \<and> (outcome (emergency_protocol cfg self voice_input auto_detected rng) = NoEmergencyDetected
        \<longrightarrow> calls (emergency_protocol cfg self voice_input auto_detected rng) = [])
   \<and> (outcome (emergency_protocol cfg self voice_input auto_detected rng) \<noteq> NoEmergencyDetected
        \<longrightarrow> notified (calls (emergency_protocol cfg self voice_input auto_detected rng))
              = EMERGENCY_CONTACTS cfg)
   \<and> outcome (emergency_protocol cfg self voice_input auto_detected rng) \<noteq> Raised e"
proof (cases "voice_input = [] \<and> \<not> auto_detected")
  case True
  then show ?thesis
    by (simp add: emergency_protocol_def)
next
  case False
  obtain summary severity where an: "analyze_symptoms voice_input = (summary, severity)"
    by (cases "analyze_symptoms voice_input")
  show ?thesis
  proof (cases "severity = ''critical''")
    case True
    with False an show ?thesis
      by (auto simp: emergency_protocol_def notify_contacts_def notified_map_Notify)
  next
    case moderate: False
    obtain res cs where sel:
      "select_optimal_hospital cfg
         (self\<lparr>current_symptoms := summary, symptom_severity := severity\<rparr>) rng = (res, cs)"
      by (cases "select_optimal_hospital cfg
         (self\<lparr>current_symptoms := summary, symptom_severity := severity\<rparr>) rng")
    have cs: "notified cs = []"
      using select_calls [of cfg "self\<lparr>current_symptoms := summary, symptom_severity := severity\<rparr>" rng]
        sel by (simp add: notified_lookups)
    have res: "res \<noteq> Inl e'" for e'
      using select_no_error [of cfg "self\<lparr>current_symptoms := summary, symptom_severity := severity\<rparr>" rng e']
        sel by simp
    show ?thesis
    proof (cases res)
      case (Inl err)
      with res [of err] show ?thesis by simp
    next
      case (Inr best)
      with False an moderate sel cs show ?thesis
        by (cases best)
           (auto simp: emergency_protocol_def notify_contacts_def notified_map_Notify
              notified_append send_emergency_alert_def)
    qed
  qed
qed

theorem contacts_notified_unless_no_emergency_witness:
  "outcome (execute_emergency_protocol Config_source assistant False none_accepts)
     \<noteq> NoEmergencyDetected
   \<and> notified (calls (execute_emergency_protocol Config_source assistant False none_accepts))
       = [family_member, close_friend]"
proof -
  have v: "listen_for_voice_command \<noteq> []"
    by (simp add: listen_for_voice_command_def)
  from contacts_notified_unless_no_emergency
    [of Config_source assistant listen_for_voice_command False none_accepts] v
  show ?thesis
    by (simp add: execute_emergency_protocol_def Config_source_def)
qed

end
